theory Spec2Isabelle
  imports Main
begin

section \<open>Strings as the component uses them\<close>

text \<open>
  The component is \<^verbatim>\<open>src/Templastic/templastic.js\<close>. Strings are lists of characters.
  The white space of \<^verbatim>\<open>String.prototype.trim\<close> and of the regular expression
  \<^verbatim>\<open>\s\<close> is the set below, as far as it lies in the range of \<^typ>\<open>char\<close>
  (tab, line feed, vertical tab, form feed, carriage return, space, no-break space).
\<close>

definition is_space :: "char \<Rightarrow> bool" where
  "is_space c \<longleftrightarrow>
     c = CHR 0x09 \<or> c = CHR 0x0A \<or> c = CHR 0x0B \<or> c = CHR 0x0C \<or> c = CHR 0x0D
     \<or> c = CHR '' '' \<or> c = CHR 0xA0"

text \<open>\<^verbatim>\<open>s.trim()\<close>\<close>

definition trim :: "string \<Rightarrow> string" where
  "trim s = rev (dropWhile is_space (rev (dropWhile is_space s)))"

text \<open>\<^verbatim>\<open>s.startsWith(p)\<close>\<close>

definition startsWith :: "string \<Rightarrow> string \<Rightarrow> bool" where
  "startsWith s p \<longleftrightarrow> take (length p) s = p"

text \<open>\<^verbatim>\<open>s.split(',')\<close>: the pieces between the separators; never an empty array.\<close>

fun split_char :: "char \<Rightarrow> string \<Rightarrow> string list" where
  "split_char c [] = [[]]"
| "split_char c (x # xs) =
     (if x = c then [] # split_char c xs
      else (case split_char c xs of
              [] \<Rightarrow> [[x]]
            | p # ps \<Rightarrow> (x # p) # ps))"

text \<open>
  \<^verbatim>\<open>s.split(/\s+/)\<close>: the pieces between the maximal runs of white space; a run at
  the start or at the end leaves an empty piece there, and the empty string gives one
  empty piece.
\<close>

function split_ws :: "string \<Rightarrow> string list" where
  "split_ws [] = [[]]"
| "split_ws (x # xs) =
     (if is_space x then [] # split_ws (dropWhile is_space xs)
      else (case split_ws xs of
              [] \<Rightarrow> [[x]]
            | p # ps \<Rightarrow> (x # p) # ps))"
  by pat_completeness auto
termination
  by (relation "measure length") (auto simp: length_dropWhile_le less_Suc_eq_le)

text \<open>\<^verbatim>\<open>parts.join(sep)\<close>\<close>

fun join :: "string \<Rightarrow> string list \<Rightarrow> string" where
  "join sep [] = []"
| "join sep [x] = x"
| "join sep (x # y # ys) = x @ sep @ join sep (y # ys)"

section \<open>The parsed document\<close>

text \<open>
  The tree that \<^verbatim>\<open>DOMParser.parseFromString(rawHTML, 'text/html')\<close> returns. An element
  has a tag name (lower case, as the HTML parser leaves it), its attributes in order and
  its child nodes. The transform reads and changes only what lies under the head and the
  body element, and only the children of the body reach its result, so a document is the
  pair of these two child lists, the head first as in document order.
\<close>

datatype node =
    Element string "(string \<times> string) list" "node list"
  | Text string
  | Comment string

record document =
  head_nodes :: "node list"
  body_nodes :: "node list"

text \<open>\<^verbatim>\<open>el.getAttribute(name)\<close>: the value, or null.\<close>

definition getAttribute :: "string \<Rightarrow> (string \<times> string) list \<Rightarrow> string option" where
  "getAttribute name attrs = map_of attrs name"

text \<open>\<^verbatim>\<open>el.setAttribute(name, v)\<close>: an attribute that exists keeps its place.\<close>

fun setAttribute :: "string \<Rightarrow> string \<Rightarrow> (string \<times> string) list \<Rightarrow> (string \<times> string) list" where
  "setAttribute name v [] = [(name, v)]"
| "setAttribute name v ((k, w) # attrs) =
     (if k = name then (k, v) # attrs else (k, w) # setAttribute name v attrs)"

text \<open>
  \<^verbatim>\<open>el.removeAttribute(name)\<close>. The attribute names of an element are distinct; on such
  a list this removes the one attribute of that name.
\<close>

definition removeAttribute :: "string \<Rightarrow> (string \<times> string) list \<Rightarrow> (string \<times> string) list" where
  "removeAttribute name attrs = filter (\<lambda>kv. fst kv \<noteq> name) attrs"

text \<open>\<^verbatim>\<open>el.textContent\<close>: the text of all descendant text nodes, in order.\<close>

fun textContent :: "node \<Rightarrow> string" where
  "textContent (Element t attrs cs) = concat (map textContent cs)"
| "textContent (Text s) = s"
| "textContent (Comment s) = []"

text \<open>\<^verbatim>\<open>parent.children\<close>: the child nodes that are elements.\<close>

fun is_element :: "node \<Rightarrow> bool" where
  "is_element (Element t attrs cs) = True"
| "is_element (Text s) = False"
| "is_element (Comment s) = False"

text \<open>
  \<^verbatim>\<open>querySelectorAll(sel)\<close> over a list of sibling trees: the elements that satisfy
  \<open>sel\<close> (a test on tag name and attributes), in document order.
\<close>

fun select_node :: "(string \<Rightarrow> (string \<times> string) list \<Rightarrow> bool) \<Rightarrow> node \<Rightarrow> node list" where
  "select_node sel (Element t attrs cs) =
     (if sel t attrs then [Element t attrs cs] else []) @ concat (map (select_node sel) cs)"
| "select_node sel (Text s) = []"
| "select_node sel (Comment s) = []"

definition querySelectorAll :: "(string \<Rightarrow> (string \<times> string) list \<Rightarrow> bool) \<Rightarrow> document \<Rightarrow> node list" where
  "querySelectorAll sel doc =
     concat (map (select_node sel) (head_nodes doc)) @ concat (map (select_node sel) (body_nodes doc))"

text \<open>Calling \<^verbatim>\<open>el.remove()\<close> on every element that satisfies \<open>sel\<close>.\<close>

fun is_selected :: "(string \<Rightarrow> (string \<times> string) list \<Rightarrow> bool) \<Rightarrow> node \<Rightarrow> bool" where
  "is_selected sel (Element t attrs cs) = sel t attrs"
| "is_selected sel (Text s) = False"
| "is_selected sel (Comment s) = False"

fun remove_selected :: "(string \<Rightarrow> (string \<times> string) list \<Rightarrow> bool) \<Rightarrow> node \<Rightarrow> node" where
  "remove_selected sel (Element t attrs cs) =
     Element t attrs (map (remove_selected sel) (filter (\<lambda>c. \<not> is_selected sel c) cs))"
| "remove_selected sel (Text s) = Text s"
| "remove_selected sel (Comment s) = Comment s"

definition remove_all :: "(string \<Rightarrow> (string \<times> string) list \<Rightarrow> bool) \<Rightarrow> document \<Rightarrow> document" where
  "remove_all sel doc =
     \<lparr> head_nodes = map (remove_selected sel) (filter (\<lambda>c. \<not> is_selected sel c) (head_nodes doc)),
       body_nodes = map (remove_selected sel) (filter (\<lambda>c. \<not> is_selected sel c) (body_nodes doc)) \<rparr>"

text \<open>
  The selectors of the source. In an HTML document the value of \<^verbatim>\<open>rel\<close> in an attribute
  selector is compared without regard to ASCII case.
\<close>

definition ascii_lower :: "char \<Rightarrow> char" where
  "ascii_lower c =
     (let n = (of_char c :: nat)
      in if 65 \<le> n \<and> n \<le> 90 then char_of (n + 32) else c)"

definition sel_style :: "string \<Rightarrow> (string \<times> string) list \<Rightarrow> bool" where
  "sel_style t attrs \<longleftrightarrow> t = ''style''"

definition sel_stylesheet_link :: "string \<Rightarrow> (string \<times> string) list \<Rightarrow> bool" where
  "sel_stylesheet_link t attrs \<longleftrightarrow>
     t = ''link'' \<and>
     (case getAttribute ''rel'' attrs of
        None \<Rightarrow> False
      | Some r \<Rightarrow> map ascii_lower r = ''stylesheet'')"

section \<open>The content transformer\<close>

text \<open>
  What the browser supplies and the source calls. \<open>url_href rel base\<close> is
  \<^verbatim>\<open>new URL(rel, base).href\<close>, \<open>None\<close> where the constructor throws a TypeError;
  \<open>parseFromString\<close> is the shared \<^verbatim>\<open>DOMParser\<close> in \<^verbatim>\<open>text/html\<close> mode;
  \<open>innerHTML\<close> serialises the children of the body; \<open>baseURI\<close> is
  \<^verbatim>\<open>document.baseURI\<close>; \<open>hasIntersectionObserver\<close> is
  \<^verbatim>\<open>'IntersectionObserver' in window\<close>.
\<close>

record platform =
  url_href :: "string \<Rightarrow> string \<Rightarrow> string option"
  parseFromString :: "string \<Rightarrow> document"
  innerHTML :: "node list \<Rightarrow> string"
  baseURI :: string
  hasIntersectionObserver :: bool

text \<open>
  What a pipeline run can be rejected with. \<^verbatim>\<open>error.name === 'AbortError'\<close> holds of
  the first only.
\<close>

datatype failure =
    AbortError
  | HTTPError nat string
  | TransportError string
  | URLTypeError

subsection \<open>Step 3b: the stylesheet links\<close>

text \<open>
  \<^verbatim>\<open>linkElements.forEach\<close> of \<^verbatim>\<open>_processHTML\<close>: a link with a non-empty
  \<^verbatim>\<open>href\<close> is cloned with the resolved \<^verbatim>\<open>href\<close>; \<^verbatim>\<open>new URL\<close> is not guarded
  here, so a \<^verbatim>\<open>href\<close> it rejects ends the transform with the TypeError.
\<close>

fun resolve_link :: "platform \<Rightarrow> string \<Rightarrow> node \<Rightarrow> failure + node list" where
  "resolve_link P resolvedURL (Element t attrs cs) =
     (case getAttribute ''href'' attrs of
        None \<Rightarrow> Inr []
      | Some href \<Rightarrow>
          if href = [] then Inr []
          else (case url_href P href resolvedURL of
                  None \<Rightarrow> Inl URLTypeError
                | Some resolvedHref \<Rightarrow> Inr [Element t (setAttribute ''href'' resolvedHref attrs) cs]))"
| "resolve_link P resolvedURL (Text s) = Inr []"
| "resolve_link P resolvedURL (Comment s) = Inr []"

fun resolve_links :: "platform \<Rightarrow> string \<Rightarrow> node list \<Rightarrow> failure + node list" where
  "resolve_links P resolvedURL [] = Inr []"
| "resolve_links P resolvedURL (l # ls) =
     (case resolve_link P resolvedURL l of
        Inl e \<Rightarrow> Inl e
      | Inr r \<Rightarrow> (case resolve_links P resolvedURL ls of
                    Inl e \<Rightarrow> Inl e
                  | Inr rs \<Rightarrow> Inr (r @ rs)))"

subsection \<open>Step 3c: the inline style of the root element\<close>

text \<open>
  \<^verbatim>\<open>rootChildren[0]\<close> is the first child of the body that is an element. Its
  \<^verbatim>\<open>style\<close> attribute is taken when it is there and \<^verbatim>\<open>trim()\<close> leaves something
  of it. The result is \<open>hostInlineStyle\<close> and the children of the body afterwards.
\<close>

fun extract_root_style :: "node list \<Rightarrow> string option \<times> node list" where
  "extract_root_style [] = (None, [])"
| "extract_root_style (Element t attrs cs # ns) =
     (case getAttribute ''style'' attrs of
        None \<Rightarrow> (None, Element t attrs cs # ns)
      | Some inlineStyleAttr \<Rightarrow>
          if inlineStyleAttr \<noteq> [] \<and> length (trim inlineStyleAttr) > 0
          then (Some inlineStyleAttr, Element t (removeAttribute ''style'' attrs) cs # ns)
          else (None, Element t attrs cs # ns))"
| "extract_root_style (n # ns) =
     (case extract_root_style ns of (h, ns') \<Rightarrow> (h, n # ns'))"

subsection \<open>Step 3d: \<^verbatim>\<open>_resolveRelativeURLs\<close>\<close>

text \<open>One entry of a \<^verbatim>\<open>srcset\<close>: the callback of \<^verbatim>\<open>map\<close>. \<^verbatim>\<open>parts[0]\<close> of an
  empty array would be \<^verbatim>\<open>undefined\<close>, which \<^verbatim>\<open>new URL\<close> reads as that word.\<close>

definition resolve_entry :: "platform \<Rightarrow> string \<Rightarrow> string \<Rightarrow> string option" where
  "resolve_entry P baseURL entry =
     (case split_ws (trim entry) of
        [] \<Rightarrow> url_href P ''undefined'' baseURL
      | p # ps \<Rightarrow>
          (case url_href P p baseURL of
             None \<Rightarrow> None
           | Some u \<Rightarrow> Some (join '' '' (u # ps))))"

text \<open>The whole \<^verbatim>\<open>srcset\<close> value; \<open>None\<close> when some \<^verbatim>\<open>new URL\<close> throws.\<close>

definition resolve_srcset :: "platform \<Rightarrow> string \<Rightarrow> string \<Rightarrow> string option" where
  "resolve_srcset P baseURL v =
     map_option (join '', '') (those (map (resolve_entry P baseURL) (split_char CHR '','' v)))"

text \<open>
  The body of the inner \<^verbatim>\<open>forEach\<close> for one element: the new value of the attribute,
  or \<open>None\<close> when the element is left as it is (the early \<^verbatim>\<open>return\<close>, or the empty
  \<^verbatim>\<open>catch\<close>).
\<close>

definition resolved_value :: "platform \<Rightarrow> string \<Rightarrow> string \<Rightarrow> string \<Rightarrow> string option" where
  "resolved_value P baseURL attr v =
     (if v = [] \<or> startsWith v ''data:'' \<or> startsWith v ''#'' then None
      else if attr = ''srcset'' then resolve_srcset P baseURL v
      else url_href P v baseURL)"

definition rewrite_attrs ::
  "platform \<Rightarrow> string \<Rightarrow> string \<Rightarrow> (string \<times> string) list \<Rightarrow> (string \<times> string) list" where
  "rewrite_attrs P baseURL attr attrs =
     (case getAttribute attr attrs of
        None \<Rightarrow> attrs
      | Some v \<Rightarrow>
          (case resolved_value P baseURL attr v of
             None \<Rightarrow> attrs
           | Some r \<Rightarrow> setAttribute attr r attrs))"

text \<open>One selector of the table, applied to every element it matches in a tree.\<close>

fun rewrite_node ::
  "platform \<Rightarrow> string \<Rightarrow> string \<Rightarrow> (string \<Rightarrow> (string \<times> string) list \<Rightarrow> bool) \<Rightarrow> node \<Rightarrow> node" where
  "rewrite_node P baseURL attr query (Element t attrs cs) =
     Element t (if query t attrs then rewrite_attrs P baseURL attr attrs else attrs)
       (map (rewrite_node P baseURL attr query) cs)"
| "rewrite_node P baseURL attr query (Text s) = Text s"
| "rewrite_node P baseURL attr query (Comment s) = Comment s"

text \<open>The table \<^verbatim>\<open>selectors\<close>, in its order.\<close>

definition has_attr :: "string \<Rightarrow> (string \<times> string) list \<Rightarrow> bool" where
  "has_attr name attrs \<longleftrightarrow> getAttribute name attrs \<noteq> None"

definition selectors :: "(string \<times> (string \<Rightarrow> (string \<times> string) list \<Rightarrow> bool)) list" where
  "selectors =
     [ (''src'',    \<lambda>t attrs. has_attr ''src'' attrs),
       (''href'',   \<lambda>t attrs. (t = ''a'' \<or> t = ''area'') \<and> has_attr ''href'' attrs),
       (''action'', \<lambda>t attrs. t = ''form'' \<and> has_attr ''action'' attrs),
       (''srcset'', \<lambda>t attrs. has_attr ''srcset'' attrs),
       (''poster'', \<lambda>t attrs. t = ''video'' \<and> has_attr ''poster'' attrs) ]"

definition resolveRelativeURLs :: "platform \<Rightarrow> document \<Rightarrow> string \<Rightarrow> document" where
  "resolveRelativeURLs P doc baseURL =
     foldl (\<lambda>d (attr, query).
              \<lparr> head_nodes = map (rewrite_node P baseURL attr query) (head_nodes d),
                body_nodes = map (rewrite_node P baseURL attr query) (body_nodes d) \<rparr>)
       doc selectors"

subsection \<open>\<^verbatim>\<open>_processHTML\<close> up to the scheduling of the frame\<close>

record transform_result =
  extractedCSS :: "string list"
  resolvedLinks :: "node list"
  contentHTML :: string
  hostInlineStyle :: "string option"

text \<open>The tree the source holds after steps 3a and 3b.\<close>

definition without_styles_and_links :: "document \<Rightarrow> document" where
  "without_styles_and_links doc = remove_all sel_stylesheet_link (remove_all sel_style doc)"

text \<open>The tree the source holds when it reads \<^verbatim>\<open>doc.body.innerHTML\<close>.\<close>

definition content_tree :: "platform \<Rightarrow> document \<Rightarrow> string \<Rightarrow> node list" where
  "content_tree P doc resolvedURL =
     body_nodes
       (resolveRelativeURLs P
          ((without_styles_and_links doc)
             \<lparr> body_nodes := snd (extract_root_style (body_nodes (without_styles_and_links doc))) \<rparr>)
          resolvedURL)"

definition processHTML :: "platform \<Rightarrow> string \<Rightarrow> string \<Rightarrow> failure + transform_result" where
  "processHTML P rawHTML resolvedURL =
     (let doc = parseFromString P rawHTML;
          css = map textContent (querySelectorAll sel_style doc);
          doc1 = remove_all sel_style doc
      in case resolve_links P resolvedURL (querySelectorAll sel_stylesheet_link doc1) of
           Inl e \<Rightarrow> Inl e
         | Inr links \<Rightarrow>
             Inr \<lparr> extractedCSS = css,
                   resolvedLinks = links,
                   contentHTML = innerHTML P (content_tree P doc resolvedURL),
                   hostInlineStyle = fst (extract_root_style (body_nodes (without_styles_and_links doc))) \<rparr>)"

section \<open>The fetch cache, the instances and the event loop\<close>

text \<open>
  The component runs on one thread. Its code runs in tasks that the browser starts: the
  lifecycle callbacks of an element, the callback of an intersection observer, the
  reactions to a settled fetch, the continuation of an \<^verbatim>\<open>await\<close>, an animation frame
  callback, and calls of the public operations. Each is one event below and changes the
  state in one step; the order of the events is the browser's choice.
\<close>

datatype outcome = Fulfilled string | Rejected failure

text \<open>
  One call of \<^verbatim>\<open>fetch\<close>. A request of \<^verbatim>\<open>_fetchWithCache\<close> (\<open>r_shared\<close>) carries the
  signal of the \<^verbatim>\<open>AbortController\<close> made for it and is the promise stored in
  \<^verbatim>\<open>_pending\<close>; a request of \<^verbatim>\<open>prefetch\<close> has no signal. \<open>Aborted\<close>: the controller
  has been aborted and the rejection has not been delivered yet. Requests are numbered in
  the order of their creation; the number also names the controller.
\<close>

datatype request_state = InFlight | Aborted | Settled outcome

record request =
  r_url :: string
  r_shared :: bool
  r_state :: request_state

text \<open>What \<^verbatim>\<open>_fetchWithCache\<close> hands to the \<^verbatim>\<open>await\<close>: the cached text, or a request.\<close>

datatype awaited = Ready string | OnRequest nat

text \<open>A run of \<^verbatim>\<open>_beginLoad\<close> suspended at its \<^verbatim>\<open>await\<close>, with its local variables.\<close>

record waiter =
  w_inst :: nat
  w_src :: string
  w_url :: string
  w_on :: awaited

text \<open>The content of a shadow root: empty, the placeholder of \<^verbatim>\<open>connectedCallback\<close>, or
  what \<^verbatim>\<open>_injectIntoShadow\<close> wrote after the base style (the scoped style text, the
  tagged links, the content markup).\<close>

datatype shadow = Blank | Placeholder | Injected "string option" "node list" string

text \<open>The events the component dispatches, with their \<^verbatim>\<open>detail\<close>.\<close>

datatype signal =
    TemplasticLoaded "string option" nat nat bool
  | TemplasticError failure string

record import_instance =
  attributes :: "string \<Rightarrow> string option"
  observer :: "nat option"
  abortController :: "nat option"
  hasLoaded :: bool
  isConnected :: bool
  shadowRoot :: shadow
  cssText :: string

text \<open>
  \<open>observers\<close>: every \<^verbatim>\<open>IntersectionObserver\<close> made so far, with the instance it
  observes and whether it still observes. \<open>frames\<close>: the callbacks given to
  \<^verbatim>\<open>requestAnimationFrame\<close> that have not run. \<open>signals\<close>: the events dispatched so far,
  with the dispatching instance.
\<close>

record state =
  cache :: "string \<Rightarrow> string option"
  pending :: "string \<Rightarrow> nat option"
  requests :: "request list"
  instances :: "nat \<Rightarrow> import_instance"
  observers :: "(nat \<times> bool) list"
  waiters :: "waiter list"
  frames :: "(nat \<times> transform_result) list"
  signals :: "(nat \<times> signal) list"

text \<open>The constructor, and the state before anything has happened.\<close>

definition new_instance :: import_instance where
  "new_instance =
     \<lparr> attributes = (\<lambda>name. None), observer = None, abortController = None,
       hasLoaded = False, isConnected = False, shadowRoot = Blank, cssText = [] \<rparr>"

definition initial :: state where
  "initial =
     \<lparr> cache = (\<lambda>u. None), pending = (\<lambda>u. None), requests = [],
       instances = (\<lambda>i. new_instance), observers = [], waiters = [], frames = [],
       signals = [] \<rparr>"

definition update_instance :: "nat \<Rightarrow> (import_instance \<Rightarrow> import_instance) \<Rightarrow> state \<Rightarrow> state" where
  "update_instance i f s = s\<lparr> instances := (instances s)(i := f (instances s i)) \<rparr>"

text \<open>\<^verbatim>\<open>this.setAttribute(name, v)\<close> for a name that is not observed.\<close>

definition set_attr :: "nat \<Rightarrow> string \<Rightarrow> string \<Rightarrow> state \<Rightarrow> state" where
  "set_attr i name v s =
     update_instance i (\<lambda>x. x\<lparr> attributes := (attributes x)(name := Some v) \<rparr>) s"

subsection \<open>Phase 1: the trigger\<close>

definition destroyObserver :: "nat \<Rightarrow> state \<Rightarrow> state" where
  "destroyObserver i s =
     (case observer (instances s i) of
        None \<Rightarrow> s
      | Some ob \<Rightarrow>
          update_instance i (\<lambda>x. x\<lparr> observer := None \<rparr>)
            (s\<lparr> observers := (observers s)[ob := (fst (observers s ! ob), False)] \<rparr>))"

text \<open>\<^verbatim>\<open>controller.abort()\<close>: a fetch that has not settled will be rejected.\<close>

definition abort :: "nat \<Rightarrow> state \<Rightarrow> state" where
  "abort r s =
     (if r < length (requests s) \<and> r_state (requests s ! r) = InFlight
      then s\<lparr> requests := (requests s)[r := (requests s ! r)\<lparr> r_state := Aborted \<rparr>] \<rparr>
      else s)"

definition abortFetch :: "nat \<Rightarrow> state \<Rightarrow> state" where
  "abortFetch i s =
     (case abortController (instances s i) of
        None \<Rightarrow> s
      | Some r \<Rightarrow> update_instance i (\<lambda>x. x\<lparr> abortController := None \<rparr>) (abort r s))"

subsection \<open>Phase 2: fetching\<close>

definition fetchWithCache :: "nat \<Rightarrow> string \<Rightarrow> state \<Rightarrow> awaited \<times> state" where
  "fetchWithCache i url s =
     (case cache s url of
        Some html \<Rightarrow> (Ready html, s)
      | None \<Rightarrow>
          (case pending s url of
             Some r \<Rightarrow> (OnRequest r, s)
           | None \<Rightarrow>
               (let r = length (requests s);
                    s1 = update_instance i (\<lambda>x. x\<lparr> abortController := Some r \<rparr>) s;
                    s2 = s1\<lparr> requests := requests s1 @ [\<lparr> r_url = url, r_shared = True, r_state = InFlight \<rparr>] \<rparr>
                in (OnRequest r, s2\<lparr> pending := (pending s2)(url := Some r) \<rparr>))))"

text \<open>
  \<^verbatim>\<open>_beginLoad\<close> up to its \<^verbatim>\<open>await\<close>. \<^verbatim>\<open>new URL(src, document.baseURI)\<close> stands
  before the \<^verbatim>\<open>try\<close>: where it throws, the run ends there with the guard set.
\<close>

definition beginLoad :: "platform \<Rightarrow> nat \<Rightarrow> state \<Rightarrow> state" where
  "beginLoad P i s =
     (if hasLoaded (instances s i) then s
      else
        (let s1 = update_instance i (\<lambda>x. x\<lparr> hasLoaded := True \<rparr>) s
         in case attributes (instances s1 i) ''src'' of
              None \<Rightarrow> s1
            | Some src \<Rightarrow>
                if src = [] then s1
                else (case url_href P src (baseURI P) of
                        None \<Rightarrow> s1
                      | Some resolvedURL \<Rightarrow>
                          (let s2 = set_attr i ''aria-busy'' ''true'' s1;
                               (a, s3) = fetchWithCache i resolvedURL s2
                           in s3\<lparr> waiters := waiters s3 @
                                  [\<lparr> w_inst = i, w_src = src, w_url = resolvedURL, w_on = a \<rparr>] \<rparr>))))"

definition initLoading :: "platform \<Rightarrow> nat \<Rightarrow> state \<Rightarrow> state" where
  "initLoading P i s =
     (case attributes (instances s i) ''src'' of
        None \<Rightarrow> s
      | Some src \<Rightarrow>
          if src = [] then s
          else
            (let mode = (case attributes (instances s i) ''loading'' of
                           None \<Rightarrow> ''lazy''
                         | Some m \<Rightarrow> if m = [] then ''lazy'' else m)
             in if mode = ''eager'' then beginLoad P i s
                else if hasIntersectionObserver P
                then update_instance i (\<lambda>x. x\<lparr> observer := Some (length (observers s)) \<rparr>)
                       (s\<lparr> observers := observers s @ [(i, True)] \<rparr>)
                else beginLoad P i s))"

text \<open>The callback of the observer \<open>ob\<close>, called with the \<^verbatim>\<open>isIntersecting\<close> of its entries.\<close>

definition intersection :: "platform \<Rightarrow> nat \<Rightarrow> bool list \<Rightarrow> state \<Rightarrow> state" where
  "intersection P ob entries s =
     (if ob < length (observers s) \<and> snd (observers s ! ob) \<and> True \<in> set entries
      then beginLoad P (fst (observers s ! ob)) (destroyObserver (fst (observers s ! ob)) s)
      else s)"

subsection \<open>The lifecycle callbacks\<close>

definition connectedCallback :: "platform \<Rightarrow> nat \<Rightarrow> state \<Rightarrow> state" where
  "connectedCallback P i s =
     (let s1 = update_instance i (\<lambda>x. x\<lparr> isConnected := True \<rparr>) s;
          s2 = (if attributes (instances s1 i) ''role'' = None
                then set_attr i ''role'' ''presentation'' s1 else s1);
          s3 = update_instance i (\<lambda>x. x\<lparr> shadowRoot := Placeholder \<rparr>) s2
      in initLoading P i s3)"

definition disconnectedCallback :: "nat \<Rightarrow> state \<Rightarrow> state" where
  "disconnectedCallback i s =
     abortFetch i (destroyObserver i (update_instance i (\<lambda>x. x\<lparr> isConnected := False \<rparr>) s))"

definition attributeChangedCallback ::
  "platform \<Rightarrow> nat \<Rightarrow> string \<Rightarrow> string option \<Rightarrow> string option \<Rightarrow> state \<Rightarrow> state" where
  "attributeChangedCallback P i name oldValue newValue s =
     (if oldValue = newValue then s
      else
        (let s1 = (if name = ''src'' \<and> isConnected (instances s i)
                   then initLoading P i
                          (abortFetch i (update_instance i (\<lambda>x. x\<lparr> hasLoaded := False \<rparr>) s))
                   else s)
         in if name = ''loading'' \<and> isConnected (instances s1 i)
            then initLoading P i (destroyObserver i s1)
            else s1))"

text \<open>
  A page script sets (\<open>Some v\<close>) or removes (\<open>None\<close>) an attribute of the element: the
  attribute changes, and for an observed name the browser then calls
  \<^verbatim>\<open>attributeChangedCallback\<close> with the old and the new value.
\<close>

definition attribute_set :: "platform \<Rightarrow> nat \<Rightarrow> string \<Rightarrow> string option \<Rightarrow> state \<Rightarrow> state" where
  "attribute_set P i name newValue s =
     (let oldValue = attributes (instances s i) name;
          s1 = update_instance i (\<lambda>x. x\<lparr> attributes := (attributes x)(name := newValue) \<rparr>) s
      in if name = ''src'' \<or> name = ''loading''
         then attributeChangedCallback P i name oldValue newValue s1
         else s1)"

subsection \<open>The network answers\<close>

text \<open>
  What the network does with a request that was not aborted: a response with status,
  status text and body, or a failure of the transport (also while the body is read).
  \<^verbatim>\<open>response.ok\<close> is a status from 200 to 299. \<^verbatim>\<open>prefetch\<close> puts only the status
  into its error.
\<close>

datatype response = Response nat string string | NetworkFailure string

definition response_outcome :: "bool \<Rightarrow> response \<Rightarrow> outcome" where
  "response_outcome shared resp =
     (case resp of
        Response status statusText body \<Rightarrow>
          if 200 \<le> status \<and> status \<le> 299 then Fulfilled body
          else Rejected (HTTPError status (if shared then statusText else []))
      | NetworkFailure msg \<Rightarrow> Rejected (TransportError msg))"

text \<open>
  The request \<open>r\<close> settles and the reactions attached to it run: for a request of
  \<^verbatim>\<open>_fetchWithCache\<close> the \<^verbatim>\<open>then\<close> that stores the text and deletes the pending
  entry, or the \<^verbatim>\<open>catch\<close> that deletes the pending entry; for a request of
  \<^verbatim>\<open>prefetch\<close> the rest of \<^verbatim>\<open>prefetch\<close>, which stores the text. An aborted request is
  rejected with the AbortError whatever the network answers.
\<close>

definition settle :: "nat \<Rightarrow> response \<Rightarrow> state \<Rightarrow> state" where
  "settle r resp s =
     (if r < length (requests s) then
        (let q = requests s ! r
         in case r_state q of
              Settled out \<Rightarrow> s
            | st \<Rightarrow>
                (let out = (if st = Aborted then Rejected AbortError
                            else response_outcome (r_shared q) resp);
                     s1 = s\<lparr> requests := (requests s)[r := q\<lparr> r_state := Settled out \<rparr>] \<rparr>
                 in if r_shared q then
                      (case out of
                         Fulfilled html \<Rightarrow>
                           s1\<lparr> cache := (cache s1)(r_url q := Some html),
                               pending := (pending s1)(r_url q := None) \<rparr>
                       | Rejected e \<Rightarrow> s1\<lparr> pending := (pending s1)(r_url q := None) \<rparr>)
                    else
                      (case out of
                         Fulfilled html \<Rightarrow> s1\<lparr> cache := (cache s1)(r_url q := Some html) \<rparr>
                       | Rejected e \<Rightarrow> s1)))
      else s)"

subsection \<open>Phase 4 and the rest of \<^verbatim>\<open>_beginLoad\<close>\<close>

text \<open>What an \<^verbatim>\<open>await\<close> on \<open>a\<close> would continue with in state \<open>s\<close>, if it can continue.\<close>

definition observe :: "state \<Rightarrow> awaited \<Rightarrow> outcome option" where
  "observe s a =
     (case a of
        Ready html \<Rightarrow> Some (Fulfilled html)
      | OnRequest r \<Rightarrow>
          if r < length (requests s) then
            (case r_state (requests s ! r) of
               Settled out \<Rightarrow> Some out
             | st \<Rightarrow> None)
          else None)"

text \<open>The \<^verbatim>\<open>catch\<close> block of \<^verbatim>\<open>_beginLoad\<close> for an error that is not an AbortError.\<close>

definition report_error :: "nat \<Rightarrow> string \<Rightarrow> failure \<Rightarrow> state \<Rightarrow> state" where
  "report_error i src e s =
     (let s1 = set_attr i ''data-state'' ''error'' (set_attr i ''aria-busy'' ''false'' s)
      in s1\<lparr> signals := signals s1 @ [(i, TemplasticError e src)] \<rparr>)"

text \<open>
  The waiter number \<open>k\<close> continues after its \<^verbatim>\<open>await\<close>, when what it waits for has
  settled: the guard on \<^verbatim>\<open>_isConnected\<close>, then \<^verbatim>\<open>_processHTML\<close>, which ends by giving its
  callback to \<^verbatim>\<open>requestAnimationFrame\<close>; or the \<^verbatim>\<open>catch\<close> block.
\<close>

definition resume :: "platform \<Rightarrow> nat \<Rightarrow> state \<Rightarrow> state" where
  "resume P k s =
     (if k < length (waiters s) then
        (let w = waiters s ! k
         in case observe s (w_on w) of
              None \<Rightarrow> s
            | Some out \<Rightarrow>
                (let s1 = s\<lparr> waiters := take k (waiters s) @ drop (Suc k) (waiters s) \<rparr>
                 in case out of
                      Fulfilled rawHTML \<Rightarrow>
                        if \<not> isConnected (instances s1 (w_inst w)) then s1
                        else (case processHTML P rawHTML (w_url w) of
                                Inl e \<Rightarrow> report_error (w_inst w) (w_src w) e s1
                              | Inr tr \<Rightarrow> s1\<lparr> frames := frames s1 @ [(w_inst w, tr)] \<rparr>)
                    | Rejected e \<Rightarrow>
                        if e = AbortError then s1
                        else report_error (w_inst w) (w_src w) e s1))
      else s)"

text \<open>\<^verbatim>\<open>link.setAttribute('data-templastic', 'external')\<close>\<close>

fun tag_external :: "node \<Rightarrow> node" where
  "tag_external (Element t attrs cs) = Element t (setAttribute ''data-templastic'' ''external'' attrs) cs"
| "tag_external (Text s) = Text s"
| "tag_external (Comment s) = Comment s"

definition injectIntoShadow :: "nat \<Rightarrow> transform_result \<Rightarrow> state \<Rightarrow> state" where
  "injectIntoShadow i tr s =
     (let cssBlocks = extractedCSS tr;
          scoped = (if length cssBlocks > 0 then Some (join [CHR 0x0A, CHR 0x0A] cssBlocks) else None);
          existingStyle = cssText (instances s i);
          hostApplied = (case hostInlineStyle tr of None \<Rightarrow> False | Some h \<Rightarrow> h \<noteq> []);
          newStyle = (case hostInlineStyle tr of
                        None \<Rightarrow> existingStyle
                      | Some h \<Rightarrow>
                          if h = [] then existingStyle
                          else if existingStyle \<noteq> [] then existingStyle @ ''; '' @ h
                          else h);
          s1 = update_instance i
                 (\<lambda>x. x\<lparr> shadowRoot := Injected scoped (map tag_external (resolvedLinks tr)) (contentHTML tr),
                          cssText := newStyle \<rparr>) s;
          s2 = set_attr i ''data-state'' ''loaded'' (set_attr i ''aria-busy'' ''false'' s1)
      in s2\<lparr> signals := signals s2 @
             [(i, TemplasticLoaded (attributes (instances s2 i) ''src'') (length cssBlocks)
                    (length (resolvedLinks tr)) hostApplied)] \<rparr>)"

text \<open>The next callback given to \<^verbatim>\<open>requestAnimationFrame\<close> runs.\<close>

definition animation_frame :: "state \<Rightarrow> state" where
  "animation_frame s =
     (case frames s of
        [] \<Rightarrow> s
      | (i, tr) # fs \<Rightarrow>
          (let s1 = s\<lparr> frames := fs \<rparr>
           in if \<not> isConnected (instances s1 i) then s1 else injectIntoShadow i tr s1))"

subsection \<open>The public operations\<close>

definition reload :: "platform \<Rightarrow> nat \<Rightarrow> state \<Rightarrow> state" where
  "reload P i s =
     (case attributes (instances s i) ''src'' of
        None \<Rightarrow> s
      | Some src \<Rightarrow>
          if src = [] then s
          else (case url_href P src (baseURI P) of
                  None \<Rightarrow> s
                | Some resolvedURL \<Rightarrow>
                    (let s1 = s\<lparr> cache := (cache s)(resolvedURL := None) \<rparr>;
                         s2 = update_instance i (\<lambda>x. x\<lparr> hasLoaded := False \<rparr>) s1
                     in beginLoad P i (destroyObserver i s2))))"

definition clearCache :: "state \<Rightarrow> state" where
  "clearCache s = s\<lparr> cache := (\<lambda>u. None), pending := (\<lambda>u. None) \<rparr>"

text \<open>
  \<^verbatim>\<open>prefetch\<close> up to its \<^verbatim>\<open>await\<close>: it throws where the URL does not resolve, returns
  the cached text, or waits for a request of its own.
\<close>

definition prefetch :: "platform \<Rightarrow> string \<Rightarrow> state \<Rightarrow> (failure + awaited) \<times> state" where
  "prefetch P url s =
     (case url_href P url (baseURI P) of
        None \<Rightarrow> (Inl URLTypeError, s)
      | Some resolvedURL \<Rightarrow>
          (case cache s resolvedURL of
             Some html \<Rightarrow> (Inr (Ready html), s)
           | None \<Rightarrow>
               (Inr (OnRequest (length (requests s))),
                s\<lparr> requests := requests s @
                      [\<lparr> r_url = resolvedURL, r_shared = False, r_state = InFlight \<rparr>] \<rparr>)))"

subsection \<open>Events and runs\<close>

datatype event =
    Connect nat
  | Disconnect nat
  | SetAttribute nat string "string option"
  | Intersect nat "bool list"
  | Settle nat response
  | Resume nat
  | AnimationFrame
  | Reload nat
  | ClearCache
  | Prefetch string

fun step :: "platform \<Rightarrow> event \<Rightarrow> state \<Rightarrow> state" where
  "step P (Connect i) s = connectedCallback P i s"
| "step P (Disconnect i) s = disconnectedCallback i s"
| "step P (SetAttribute i name v) s = attribute_set P i name v s"
| "step P (Intersect ob entries) s = intersection P ob entries s"
| "step P (Settle r resp) s = settle r resp s"
| "step P (Resume k) s = resume P k s"
| "step P AnimationFrame s = animation_frame s"
| "step P (Reload i) s = reload P i s"
| "step P ClearCache s = clearCache s"
| "step P (Prefetch url) s = snd (prefetch P url s)"

definition run :: "platform \<Rightarrow> event list \<Rightarrow> state \<Rightarrow> state" where
  "run P es s = foldl (\<lambda>t e. step P e t) s es"

section \<open>Stated properties and sample inputs\<close>

subsection \<open>A sample platform\<close>

text \<open>
  A platform on which the operations can be evaluated: a URL constructor for plain
  relative file names (it rejects a reference that holds a space or a bracket, keeps an
  absolute \<^verbatim>\<open>https\<close> reference, and otherwise puts the reference after the last slash
  of the base), a parser that knows one fragment and takes any other input as a text
  node, and a serialiser without escaping.
\<close>

definition directory :: "string \<Rightarrow> string" where
  "directory base = rev (dropWhile (\<lambda>c. c \<noteq> CHR ''/'') (rev base))"

definition sample_href :: "string \<Rightarrow> string \<Rightarrow> string option" where
  "sample_href rel base =
     (if CHR '' '' \<in> set rel \<or> CHR ''['' \<in> set rel then None
      else if startsWith rel ''https://'' then Some rel
      else Some (directory base @ rel))"

fun sample_serialize :: "node \<Rightarrow> string" where
  "sample_serialize (Element t attrs cs) =
     ''<'' @ t @ concat (map (\<lambda>kv. '' '' @ fst kv @ ''=\"'' @ snd kv @ ''\"'') attrs) @ ''>''
       @ concat (map sample_serialize cs) @ ''</'' @ t @ ''>''"
| "sample_serialize (Text s) = s"
| "sample_serialize (Comment s) = ''<!--'' @ s @ ''-->''"

definition sample_parse :: "string \<Rightarrow> document" where
  "sample_parse raw =
     (if raw = ''<div style=\"color:red\"><p>hi</p></div>''
      then \<lparr> head_nodes = [],
             body_nodes = [Element ''div'' [(''style'', ''color:red'')]
                             [Element ''p'' [] [Text ''hi'']]] \<rparr>
      else if raw = ''<div style=\"color:red\"><p>hi</p></div><p style=\"margin:0\">bye</p>''
      then \<lparr> head_nodes = [],
             body_nodes = [Element ''div'' [(''style'', ''color:red'')]
                             [Element ''p'' [] [Text ''hi'']],
                           Element ''p'' [(''style'', ''margin:0'')] [Text ''bye'']] \<rparr>
      else \<lparr> head_nodes = [], body_nodes = [Text raw] \<rparr>)"

definition sample_platform :: platform where
  "sample_platform =
     \<lparr> url_href = sample_href,
       parseFromString = sample_parse,
       innerHTML = (\<lambda>ns. concat (map sample_serialize ns)),
       baseURI = ''https://x/dir/index.html'',
       hasIntersectionObserver = True \<rparr>"

text \<open>A page script gives the element \<open>i\<close> a source, makes it eager and inserts it.\<close>

definition eager :: "nat \<Rightarrow> string \<Rightarrow> event list" where
  "eager i src =
     [SetAttribute i ''src'' (Some src), SetAttribute i ''loading'' (Some ''eager''), Connect i]"

subsection \<open>The two mappings\<close>

text \<open>No URL is in the cache mapping and in the pending mapping.\<close>

definition exclusive :: "state \<Rightarrow> bool" where
  "exclusive s \<longleftrightarrow> (\<forall>u. cache s u = None \<or> pending s u = None)"

text \<open>The event \<open>e\<close> lets a request of \<^verbatim>\<open>prefetch\<close> settle while its URL is pending.\<close>

definition prefetch_race :: "event \<Rightarrow> state \<Rightarrow> bool" where
  "prefetch_race e s =
     (case e of
        Settle r resp \<Rightarrow>
          r < length (requests s) \<and> \<not> r_shared (requests s ! r)
          \<and> pending s (r_url (requests s ! r)) \<noteq> None
      | _ \<Rightarrow> False)"

fun race_free :: "platform \<Rightarrow> event list \<Rightarrow> state \<Rightarrow> bool" where
  "race_free P [] s = True"
| "race_free P (e # es) s = (\<not> prefetch_race e s \<and> race_free P es (step P e s))"

text \<open>An element starts a retrieval; \<^verbatim>\<open>prefetch\<close> of the same URL starts and ends first.\<close>

definition race_trace :: "event list" where
  "race_trace =
     eager 0 ''a.html'' @ [Prefetch ''a.html'', Settle 1 (Response 200 ''OK'' ''<p>hi</p>'')]"

text \<open>The same with \<^verbatim>\<open>prefetch\<close> of another URL, and both retrievals ending.\<close>

definition calm_trace :: "event list" where
  "calm_trace =
     eager 0 ''a.html'' @
     [Prefetch ''b.html'', Settle 1 (Response 200 ''OK'' ''<p>hi</p>''),
      Settle 0 (Response 200 ''OK'' ''<p>hi</p>'')]"

text \<open>The element 0 has started its retrieval, which is in flight.\<close>

definition loading_state :: state where
  "loading_state = run sample_platform (eager 0 ''a.html'') initial"

text \<open>The retrieval has succeeded: the URL is cached and nothing is pending.\<close>

definition cached_state :: state where
  "cached_state =
     run sample_platform (eager 0 ''a.html'' @ [Settle 0 (Response 200 ''OK'' ''<p>hi</p>'')]) initial"

text \<open>After the race of \<^verbatim>\<open>prefetch\<close>, the retrieval of the element fails.\<close>

definition failed_race_trace :: "event list" where
  "failed_race_trace = race_trace @ [Settle 0 (NetworkFailure ''offline'')]"

text \<open>Two elements with the same source: the second borrows the retrieval of the first.\<close>

definition shared_state :: state where
  "shared_state = run sample_platform (eager 0 ''a.html'' @ eager 1 ''a.html'') initial"

text \<open>The retrieval of the element 0 has succeeded and its run has continued up to
  \<^verbatim>\<open>requestAnimationFrame\<close>: its callback waits for the next frame.\<close>

definition framed_state :: state where
  "framed_state =
     run sample_platform
       (eager 0 ''a.html'' @ [Settle 0 (Response 200 ''OK'' ''<p>hi</p>''), Resume 0]) initial"

text \<open>The retrieval is answered, both runs continue, and two frames pass.\<close>

definition resolution :: "event list" where
  "resolution =
     [Settle 0 (Response 200 ''OK'' ''<p>hi</p>''), Resume 0, Resume 0,
      AnimationFrame, AnimationFrame]"



text \<open>The element 1 is removed and inserted again before the retrieval is answered.\<close>

definition reconnected :: "event list" where
  "reconnected = Disconnect 1 # Connect 1 # resolution"




subsection \<open>What is seen of an element\<close>

fun is_loaded :: "signal \<Rightarrow> bool" where
  "is_loaded (TemplasticLoaded src n m h) = True"
| "is_loaded (TemplasticError e src) = False"

text \<open>The \<^verbatim>\<open>templastic-loaded\<close> events that the element \<open>i\<close> has dispatched.\<close>

definition loaded_signals :: "nat \<Rightarrow> state \<Rightarrow> (nat \<times> signal) list" where
  "loaded_signals i s = filter (\<lambda>x. fst x = i \<and> is_loaded (snd x)) (signals s)"

definition face :: "nat \<Rightarrow> state \<Rightarrow> bool \<times> shadow \<times> (nat \<times> signal) list" where
  "face j s = (isConnected (instances s j), shadowRoot (instances s j), signals s)"

text \<open>From \<open>s\<close> to \<open>t\<close> the element \<open>i\<close> is not connected, its shadow root is not
  written and it dispatches no \<^verbatim>\<open>templastic-loaded\<close>.\<close>

definition quiet :: "nat \<Rightarrow> state \<Rightarrow> state \<Rightarrow> bool" where
  "quiet i s t \<longleftrightarrow>
     \<not> isConnected (instances t i)
     \<and> shadowRoot (instances t i) = shadowRoot (instances s i)
     \<and> loaded_signals i t = loaded_signals i s"


subsection \<open>Concurrent requests\<close>



text \<open>The number of retrievals that \<^verbatim>\<open>_fetchWithCache\<close> has issued for the URL \<open>u\<close>.\<close>

definition retrievals :: "string \<Rightarrow> state \<Rightarrow> nat" where
  "retrievals u s = length (filter (\<lambda>q. r_shared q \<and> r_url q = u) (requests s))"






subsection \<open>The value of a \<^verbatim>\<open>srcset\<close> and the attributes of a node\<close>

text \<open>
  The source splits the value at every comma, trims each piece, and splits the piece at
  every run of white space: the first part is the URL, the others are the descriptors.
  A URL or a descriptor is therefore a token: not empty, without white space and without
  a comma. A candidate is one entry as it is written: white space, the URL, then each
  descriptor after at least one white space character, then white space. The value of
  the attribute is the candidates with a comma between them. The source writes an entry
  back with one space between its parts, and the entries with a comma and a space
  between them.
\<close>

definition is_token :: "string \<Rightarrow> bool" where
  "is_token t \<longleftrightarrow> t \<noteq> [] \<and> (\<forall>c \<in> set t. \<not> is_space c \<and> c \<noteq> CHR '','')"

definition blank :: "string \<Rightarrow> bool" where
  "blank w \<longleftrightarrow> (\<forall>c \<in> set w. is_space c)"

record candidate =
  c_lead :: string
  c_url :: string
  c_descs :: "(string \<times> string) list"
  c_trail :: string

text \<open>The descriptors, each written after the white space that precedes it.\<close>

definition tail_text :: "(string \<times> string) list \<Rightarrow> string" where
  "tail_text ds = concat (map (\<lambda>gd. fst gd @ snd gd) ds)"

definition candidate_text :: "candidate \<Rightarrow> string" where
  "candidate_text c = c_lead c @ c_url c @ tail_text (c_descs c) @ c_trail c"

definition well_formed_candidate :: "candidate \<Rightarrow> bool" where
  "well_formed_candidate c \<longleftrightarrow>
     blank (c_lead c) \<and> blank (c_trail c) \<and> is_token (c_url c)
     \<and> (\<forall>gd \<in> set (c_descs c). fst gd \<noteq> [] \<and> blank (fst gd) \<and> is_token (snd gd))"

definition srcset_text :: "candidate list \<Rightarrow> string" where
  "srcset_text cs = join '','' (map candidate_text cs)"

definition render_entry :: "string \<times> string list \<Rightarrow> string" where
  "render_entry e = join '' '' (fst e # snd e)"

definition render_srcset :: "(string \<times> string list) list \<Rightarrow> string" where
  "render_srcset es = join '', '' (map render_entry es)"

text \<open>A candidate with its URL made absolute, and its descriptors.\<close>

definition resolved_entry :: "platform \<Rightarrow> string \<Rightarrow> candidate \<Rightarrow> string \<times> string list" where
  "resolved_entry P baseURL c = (the (url_href P (c_url c) baseURL), map snd (c_descs c))"

text \<open>\<^verbatim>\<open>node.getAttribute(name)\<close> for a node that may not be an element.\<close>

fun attribute_of :: "string \<Rightarrow> node \<Rightarrow> string option" where
  "attribute_of name (Element t attrs cs) = getAttribute name attrs"
| "attribute_of name (Text s) = None"
| "attribute_of name (Comment s) = None"

text \<open>What the passes of \<^verbatim>\<open>_resolveRelativeURLs\<close>, one per selector, make of one tree.\<close>

definition rewrite_passes :: "platform \<Rightarrow> string \<Rightarrow> node \<Rightarrow> node" where
  "rewrite_passes P baseURL n =
     foldl (\<lambda>m (attr, query). rewrite_node P baseURL attr query m) n selectors"


section \<open>Evaluation and frame lemmas\<close>

lemmas eval_defs =
  run_def eager_def initial_def new_instance_def sample_platform_def sample_href_def
  directory_def startsWith_def attribute_set_def attributeChangedCallback_def
  update_instance_def connectedCallback_def set_attr_def initLoading_def beginLoad_def
  fetchWithCache_def Let_def prefetch_def settle_def response_outcome_def
  prefetch_race_def disconnectedCallback_def destroyObserver_def abortFetch_def abort_def
  resume_def observe_def animation_frame_def report_error_def reload_def clearCache_def
  intersection_def

lemmas transform_defs =
  processHTML_def sample_parse_def querySelectorAll_def remove_all_def sel_style_def
  sel_stylesheet_link_def content_tree_def without_styles_and_links_def
  resolveRelativeURLs_def selectors_def has_attr_def getAttribute_def removeAttribute_def
  rewrite_attrs_def resolved_value_def injectIntoShadow_def trim_def is_space_def

lemma maps_update_instance [simp]:
  "cache (update_instance i f s) = cache s"
  "pending (update_instance i f s) = pending s"
  by (simp_all add: update_instance_def)

lemma maps_set_attr [simp]:
  "cache (set_attr i n v s) = cache s"
  "pending (set_attr i n v s) = pending s"
  by (simp_all add: set_attr_def)

lemma maps_destroyObserver [simp]:
  "cache (destroyObserver i s) = cache s"
  "pending (destroyObserver i s) = pending s"
  by (simp_all add: destroyObserver_def split: option.splits)

lemma maps_abortFetch [simp]:
  "cache (abortFetch i s) = cache s"
  "pending (abortFetch i s) = pending s"
  by (simp_all add: abortFetch_def abort_def split: option.splits)

lemma maps_report_error [simp]:
  "cache (report_error i src e s) = cache s"
  "pending (report_error i src e s) = pending s"
  by (simp_all add: report_error_def Let_def)

lemma maps_injectIntoShadow [simp]:
  "cache (injectIntoShadow i tr s) = cache s"
  "pending (injectIntoShadow i tr s) = pending s"
  by (simp_all add: injectIntoShadow_def Let_def)

lemma maps_resume [simp]:
  "cache (resume P k s) = cache s"
  "pending (resume P k s) = pending s"
  by (simp_all add: resume_def Let_def split: option.splits outcome.splits sum.splits)

lemma maps_animation_frame [simp]:
  "cache (animation_frame s) = cache s"
  "pending (animation_frame s) = pending s"
  by (simp_all add: animation_frame_def Let_def split: list.splits prod.splits)

subsection \<open>Each operation keeps the two mappings disjoint\<close>

lemma exclusive_same:
  "cache t = cache s \<Longrightarrow> pending t = pending s \<Longrightarrow> exclusive s \<Longrightarrow> exclusive t"
  by (simp add: exclusive_def)

lemma exclusive_fetchWithCache: "exclusive s \<Longrightarrow> exclusive (snd (fetchWithCache i u s))"
  by (auto simp: exclusive_def fetchWithCache_def Let_def split: option.splits)

lemma exclusive_beginLoad: "exclusive s \<Longrightarrow> exclusive (beginLoad P i s)"
proof -
  assume ex: "exclusive s"
  have pre: "exclusive (set_attr i ''aria-busy'' ''true''
                 (update_instance i (\<lambda>x. x\<lparr> hasLoaded := True \<rparr>) s))"
    by (rule exclusive_same[OF _ _ ex]) simp_all
  have upd: "exclusive (update_instance i (\<lambda>x. x\<lparr> hasLoaded := True \<rparr>) s)"
    by (rule exclusive_same[OF _ _ ex]) simp_all
  have w: "\<And>t ws. exclusive (t\<lparr>waiters := ws\<rparr>) = exclusive t"
    by (simp add: exclusive_def)
  show ?thesis
    using ex upd exclusive_fetchWithCache[OF pre]
    by (simp add: beginLoad_def Let_def case_prod_beta w split: option.splits)
qed

lemma exclusive_initLoading: "exclusive s \<Longrightarrow> exclusive (initLoading P i s)"
proof -
  assume ex: "exclusive s"
  have ob: "\<And>f os. exclusive (update_instance i f (s\<lparr>observers := os\<rparr>))"
    by (rule exclusive_same[OF _ _ ex]) simp_all
  show ?thesis
    using ex exclusive_beginLoad[OF ex] ob
    by (simp add: initLoading_def Let_def split: option.splits)
qed

lemma exclusive_connectedCallback: "exclusive s \<Longrightarrow> exclusive (connectedCallback P i s)"
  unfolding connectedCallback_def Let_def
  by (rule exclusive_initLoading) (auto intro: exclusive_same)

lemma exclusive_disconnectedCallback: "exclusive s \<Longrightarrow> exclusive (disconnectedCallback i s)"
  unfolding disconnectedCallback_def by (erule exclusive_same[rotated 2]) simp_all

lemma exclusive_attributeChangedCallback:
  "exclusive s \<Longrightarrow> exclusive (attributeChangedCallback P i name old new s)"
  unfolding attributeChangedCallback_def Let_def
  by (auto intro!: exclusive_initLoading intro: exclusive_same)

lemma exclusive_attribute_set: "exclusive s \<Longrightarrow> exclusive (attribute_set P i name v s)"
  unfolding attribute_set_def Let_def
  by (auto intro!: exclusive_attributeChangedCallback intro: exclusive_same)

lemma exclusive_intersection: "exclusive s \<Longrightarrow> exclusive (intersection P ob entries s)"
  unfolding intersection_def
  by (auto intro!: exclusive_beginLoad intro: exclusive_same)

lemma exclusive_reload: "exclusive s \<Longrightarrow> exclusive (reload P i s)"
proof -
  assume ex: "exclusive s"
  have "\<And>u. exclusive (s\<lparr> cache := (cache s)(u := None) \<rparr>)"
    using ex by (auto simp: exclusive_def)
  then have "\<And>u f. exclusive (destroyObserver i
                 (update_instance i f (s\<lparr> cache := (cache s)(u := None) \<rparr>)))"
    by (rule exclusive_same[rotated 2]) simp_all
  then show ?thesis
    using ex by (auto simp: reload_def Let_def split: option.splits intro!: exclusive_beginLoad)
qed

lemma exclusive_clearCache: "exclusive (clearCache s)"
  by (simp add: exclusive_def clearCache_def)

lemma exclusive_settle:
  "exclusive s \<Longrightarrow> \<not> prefetch_race (Settle r resp) s \<Longrightarrow> exclusive (settle r resp s)"
  by (auto simp: exclusive_def settle_def prefetch_race_def Let_def
           split: request_state.splits outcome.splits)

lemma exclusive_prefetch: "exclusive s \<Longrightarrow> exclusive (snd (prefetch P url s))"
  by (auto simp: exclusive_def prefetch_def split: option.splits)

lemma exclusive_step:
  "exclusive s \<Longrightarrow> \<not> prefetch_race e s \<Longrightarrow> exclusive (step P e s)"
  by (cases e)
     (auto intro: exclusive_connectedCallback exclusive_disconnectedCallback
        exclusive_attribute_set exclusive_intersection exclusive_settle exclusive_reload
        exclusive_clearCache exclusive_prefetch
        exclusive_same[of "resume P k s" s for k] exclusive_same[of "animation_frame s" s])

lemma exclusive_run:
  "exclusive s \<Longrightarrow> race_free P es s \<Longrightarrow> exclusive (run P (take n es) s)"
proof (induction es arbitrary: s n)
  case Nil
  then show ?case by (simp add: run_def)
next
  case (Cons e es)
  show ?case
  proof (cases n)
    case 0
    with Cons.prems show ?thesis by (simp add: run_def)
  next
    case (Suc m)
    from Cons.prems have "exclusive (step P e s)" and "race_free P es (step P e s)"
      by (simp_all add: exclusive_step)
    then have "exclusive (run P (take m es) (step P e s))" by (rule Cons.IH)
    with Suc show ?thesis by (simp add: run_def)
  qed
qed

subsection \<open>What the operations leave of an element\<close>

lemma face_update_instance:
  "isConnected (f (instances s i)) = isConnected (instances s i) \<Longrightarrow>
   shadowRoot (f (instances s i)) = shadowRoot (instances s i) \<Longrightarrow>
   face j (update_instance i f s) = face j s"
  by (simp add: face_def update_instance_def)

lemma face_set_attr [simp]: "face j (set_attr i n v s) = face j s"
  by (simp add: face_def set_attr_def update_instance_def)

lemma face_destroyObserver [simp]: "face j (destroyObserver i s) = face j s"
  by (simp add: face_def destroyObserver_def update_instance_def split: option.splits)

lemma face_abortFetch [simp]: "face j (abortFetch i s) = face j s"
  by (simp add: face_def abortFetch_def abort_def update_instance_def split: option.splits)

lemma face_fetchWithCache [simp]: "face j (snd (fetchWithCache i u s)) = face j s"
  by (simp add: face_def fetchWithCache_def update_instance_def Let_def split: option.splits)

lemma face_waiters [simp]: "face j (s\<lparr> waiters := ws \<rparr>) = face j s"
  by (simp add: face_def)

lemma face_beginLoad [simp]: "face j (beginLoad P i s) = face j s"
  by (simp add: beginLoad_def Let_def case_prod_beta face_update_instance split: option.splits)

lemma face_initLoading [simp]: "face j (initLoading P i s) = face j s"
proof -
  have "\<And>ob os. face j (update_instance i (\<lambda>x. x\<lparr> observer := ob \<rparr>) (s\<lparr> observers := os \<rparr>)) = face j s"
    by (simp add: face_def update_instance_def)
  then show ?thesis
    by (simp add: initLoading_def Let_def split: option.splits)
qed

lemma face_intersection [simp]: "face j (intersection P ob entries s) = face j s"
  by (simp add: intersection_def)

lemma face_attribute_set [simp]: "face j (attribute_set P i name v s) = face j s"
  by (simp add: attribute_set_def attributeChangedCallback_def Let_def face_update_instance)

lemma face_settle [simp]: "face j (settle r resp s) = face j s"
  by (simp add: face_def settle_def Let_def split: request_state.splits outcome.splits)

lemma face_reload [simp]: "face j (reload P i s) = face j s"
proof -
  have "\<And>c. face j (update_instance i (\<lambda>x. x\<lparr> hasLoaded := False \<rparr>) (s\<lparr> cache := c \<rparr>)) = face j s"
    by (simp add: face_def update_instance_def)
  then show ?thesis
    by (simp add: reload_def Let_def split: option.splits)
qed

lemma face_clearCache [simp]: "face j (clearCache s) = face j s"
  by (simp add: face_def clearCache_def)

lemma face_prefetch [simp]: "face j (snd (prefetch P url s)) = face j s"
  by (simp add: face_def prefetch_def split: option.splits)


lemma quiet_face: "\<not> isConnected (instances s i) \<Longrightarrow> face i t = face i s \<Longrightarrow> quiet i s t"
  by (simp add: quiet_def face_def loaded_signals_def)


lemma quiet_connectedCallback:
  "\<not> isConnected (instances s i) \<Longrightarrow> j \<noteq> i \<Longrightarrow> quiet i s (connectedCallback P j s)"
proof -
  assume a: "\<not> isConnected (instances s i)" and b: "j \<noteq> i"
  have "\<And>t. face i (initLoading P j t) = face i t" by simp
  then have "face i (connectedCallback P j s) = face i s"
    using b by (simp add: connectedCallback_def Let_def)
       (simp add: face_def update_instance_def set_attr_def)
  with a show ?thesis by (rule quiet_face)
qed

lemma quiet_disconnectedCallback:
  "\<not> isConnected (instances s i) \<Longrightarrow> quiet i s (disconnectedCallback j s)"
proof -
  assume a: "\<not> isConnected (instances s i)"
  have "face i (disconnectedCallback j s) = face i s"
    using a by (simp add: disconnectedCallback_def) (simp add: face_def update_instance_def)
  with a show ?thesis by (rule quiet_face)
qed

lemma quiet_resume: "\<not> isConnected (instances s i) \<Longrightarrow> quiet i s (resume P k s)"
  by (auto simp: quiet_def loaded_signals_def resume_def Let_def report_error_def set_attr_def
        update_instance_def split: option.splits outcome.splits sum.splits)

lemma quiet_animation_frame: "\<not> isConnected (instances s i) \<Longrightarrow> quiet i s (animation_frame s)"
  by (auto simp: quiet_def loaded_signals_def animation_frame_def Let_def injectIntoShadow_def
        set_attr_def update_instance_def split: list.splits)

lemma quiet_step:
  "\<not> isConnected (instances s i) \<Longrightarrow> e \<noteq> Connect i \<Longrightarrow> quiet i s (step P e s)"
  by (cases e)
     (auto intro: quiet_face quiet_connectedCallback quiet_disconnectedCallback quiet_resume
        quiet_animation_frame)

lemma quiet_run:
  "\<not> isConnected (instances s i) \<Longrightarrow> Connect i \<notin> set es \<Longrightarrow> quiet i s (run P es s)"
proof (induction es arbitrary: s)
  case Nil
  then show ?case by (simp add: run_def quiet_def)
next
  case (Cons e es)
  from Cons.prems have "e \<noteq> Connect i" by auto
  with Cons.prems have q: "quiet i s (step P e s)" by (simp add: quiet_step)
  then have "\<not> isConnected (instances (step P e s) i)" by (simp add: quiet_def)
  with Cons.prems have "quiet i (step P e s) (run P es (step P e s))"
    by (intro Cons.IH) simp_all
  with q show ?case by (simp add: quiet_def run_def)
qed

lemma response_outcome_not_abort: "response_outcome b resp \<noteq> Rejected AbortError"
  by (simp add: response_outcome_def split: response.splits)

lemma loading_state_eq:
  "pending loading_state ''https://x/dir/a.html'' = Some 0"
  "cache loading_state ''https://x/dir/a.html'' = None"
  "requests loading_state = [\<lparr> r_url = ''https://x/dir/a.html'', r_shared = True, r_state = InFlight \<rparr>]"
  by (simp_all add: loading_state_def eval_defs)

lemma sample_href_a:
  "url_href sample_platform ''a.html'' (baseURI sample_platform) = Some ''https://x/dir/a.html''"
  by (simp add: sample_platform_def sample_href_def directory_def startsWith_def)


subsection \<open>A settled request keeps its outcome\<close>




lemma requests_update_instance [simp]: "requests (update_instance i f s) = requests s"
  by (simp add: update_instance_def)

lemma requests_set_attr [simp]: "requests (set_attr i n v s) = requests s"
  by (simp add: set_attr_def)

lemma requests_destroyObserver [simp]: "requests (destroyObserver i s) = requests s"
  by (simp add: destroyObserver_def split: option.splits)

lemma requests_resume [simp]: "requests (resume P k s) = requests s"
  by (simp add: resume_def report_error_def Let_def split: option.splits outcome.splits sum.splits)

lemma requests_animation_frame [simp]: "requests (animation_frame s) = requests s"
  by (simp add: animation_frame_def injectIntoShadow_def Let_def split: list.splits)


















lemma run_append: "run P (es @ es') s = run P es' (run P es s)"
  by (simp add: run_def)



subsection \<open>Requests for one URL while nothing completes\<close>


lemma waiters_update_instance [simp]: "waiters (update_instance i f s) = waiters s"
  by (simp add: update_instance_def)

lemma waiters_set_attr [simp]: "waiters (set_attr i n v s) = waiters s"
  by (simp add: set_attr_def)

lemma waiters_destroyObserver [simp]: "waiters (destroyObserver i s) = waiters s"
  by (simp add: destroyObserver_def split: option.splits)

lemma waiters_abortFetch [simp]: "waiters (abortFetch i s) = waiters s"
  by (simp add: abortFetch_def abort_def split: option.splits)

lemma waiters_animation_frame [simp]: "waiters (animation_frame s) = waiters s"
  by (simp add: animation_frame_def injectIntoShadow_def Let_def split: list.splits)


lemma filter_length_update:
  "i < length xs \<Longrightarrow> P y = P (xs ! i) \<Longrightarrow> length (filter P (xs[i := y])) = length (filter P xs)"
  by (induction xs arbitrary: i) (auto split: nat.splits)

lemma retrievals_same [simp]:
  "retrievals u (update_instance i f s) = retrievals u s"
  "retrievals u (set_attr i n v s) = retrievals u s"
  "retrievals u (destroyObserver i s) = retrievals u s"
  "retrievals u (resume P k s) = retrievals u s"
  "retrievals u (animation_frame s) = retrievals u s"
  by (simp_all add: retrievals_def)

lemma retrievals_abortFetch [simp]: "retrievals u (abortFetch i s) = retrievals u s"
  by (simp add: retrievals_def abortFetch_def abort_def filter_length_update split: option.splits)


















subsection \<open>Splitting and joining\<close>

lemma join_Cons: "join sep (x # xs) = (if xs = [] then x else x @ sep @ join sep xs)"
  by (cases xs) simp_all

lemma split_ws_nonempty [simp]: "split_ws s \<noteq> []"
  by (cases s) (auto split: list.splits)

lemma split_ws_plain: "\<forall>c \<in> set t. \<not> is_space c \<Longrightarrow> split_ws t = [t]"
  by (induction t) auto

lemma split_ws_append:
  "\<forall>c \<in> set t. \<not> is_space c \<Longrightarrow> is_space x \<Longrightarrow>
   split_ws (t @ x # rest) = t # split_ws (dropWhile is_space rest)"
  by (induction t) auto

lemma is_space_blank [simp]: "is_space CHR '' ''"
  by (simp add: is_space_def)

lemma token_hd: "is_token t \<Longrightarrow> \<exists>c cs. t = c # cs \<and> \<not> is_space c"
  by (cases t) (auto simp: is_token_def)

lemma split_char_plain: "c \<notin> set t \<Longrightarrow> split_char c t = [t]"
  by (induction t) auto

lemma split_char_append: "c \<notin> set t \<Longrightarrow> split_char c (t @ c # rest) = t # split_char c rest"
  by (induction t) auto

lemma those_map_Some:
  "\<forall>x \<in> set xs. f x = Some (g x) \<Longrightarrow> those (map f xs) = Some (map g xs)"
  by (induction xs) simp_all

lemma dropWhile_blank:
  "blank l \<Longrightarrow> xs \<noteq> [] \<Longrightarrow> \<not> is_space (hd xs) \<Longrightarrow> dropWhile is_space (l @ xs) = xs"
  by (cases xs) (auto simp: blank_def dropWhile_append)

lemma trim_padded:
  assumes "blank l" and "blank r" and "b \<noteq> []" and "\<not> is_space (hd b)" and "\<not> is_space (last b)"
  shows "trim (l @ b @ r) = b"
proof -
  have 1: "dropWhile is_space (l @ b @ r) = b @ r"
    using assms(1,3,4) dropWhile_blank[of l "b @ r"] by simp
  have "blank (rev r)" using assms(2) by (simp add: blank_def)
  moreover have "rev b \<noteq> []" and "\<not> is_space (hd (rev b))"
    using assms(3,5) by (simp_all add: hd_rev)
  ultimately have 2: "dropWhile is_space (rev r @ rev b) = rev b"
    by (rule dropWhile_blank)
  show ?thesis by (simp add: trim_def 1 2)
qed

lemma tail_text_simps [simp]:
  "tail_text [] = []"
  "tail_text (gd # ds) = fst gd @ snd gd @ tail_text ds"
  by (simp_all add: tail_text_def)

lemma split_ws_tokens:
  "is_token t \<Longrightarrow> \<forall>gd \<in> set ds. fst gd \<noteq> [] \<and> blank (fst gd) \<and> is_token (snd gd) \<Longrightarrow>
   split_ws (t @ tail_text ds) = t # map snd ds"
proof (induction ds arbitrary: t)
  case Nil
  then show ?case by (simp add: split_ws_plain is_token_def)
next
  case (Cons gd ds)
  obtain g d where gd: "gd = (g, d)" by (cases gd)
  from Cons.prems gd obtain x g' where g: "g = x # g'" and x: "is_space x" and g': "blank g'"
    by (cases g) (auto simp: blank_def)
  from Cons.prems gd have d: "is_token d" by simp
  from token_hd[OF d] obtain c cs where dc: "d = c # cs" and c: "\<not> is_space c" by blast
  from Cons.prems have ns: "\<forall>c \<in> set t. \<not> is_space c" by (simp add: is_token_def)
  have "split_ws (t @ x # (g' @ d @ tail_text ds)) =
        t # split_ws (dropWhile is_space (g' @ d @ tail_text ds))"
    using ns x by (rule split_ws_append)
  also have "dropWhile is_space (g' @ d @ tail_text ds) = d @ tail_text ds"
    using g' dc c dropWhile_blank[of g' "d @ tail_text ds"] by simp
  also have "split_ws (d @ tail_text ds) = d # map snd ds"
    using Cons.IH[OF d] Cons.prems by simp
  finally show ?case by (simp add: gd g)
qed

lemma tokens_last:
  "is_token t \<Longrightarrow> \<forall>gd \<in> set ds. fst gd \<noteq> [] \<and> blank (fst gd) \<and> is_token (snd gd) \<Longrightarrow>
   \<not> is_space (last (t @ tail_text ds))"
proof (induction ds arbitrary: t)
  case Nil
  then show ?case by (auto simp: is_token_def)
next
  case (Cons gd ds)
  from Cons.prems have d: "is_token (snd gd)" by simp
  then have ne: "snd gd @ tail_text ds \<noteq> []" by (auto simp: is_token_def)
  have "\<not> is_space (last (snd gd @ tail_text ds))"
    using Cons.IH[OF d] Cons.prems by simp
  moreover have "last (t @ fst gd @ snd gd @ tail_text ds) = last (snd gd @ tail_text ds)"
    using ne by (metis append_is_Nil_conv last_appendR)
  ultimately show ?case by simp
qed

lemma candidate_body:
  assumes "well_formed_candidate c"
  shows "candidate_text c = c_lead c @ (c_url c @ tail_text (c_descs c)) @ c_trail c"
    and "trim (candidate_text c) = c_url c @ tail_text (c_descs c)"
    and "split_ws (c_url c @ tail_text (c_descs c)) = c_url c # map snd (c_descs c)"
proof -
  from assms have t: "is_token (c_url c)"
    and ds: "\<forall>gd \<in> set (c_descs c). fst gd \<noteq> [] \<and> blank (fst gd) \<and> is_token (snd gd)"
    and l: "blank (c_lead c)" and r: "blank (c_trail c)"
    by (simp_all add: well_formed_candidate_def)
  show eq: "candidate_text c = c_lead c @ (c_url c @ tail_text (c_descs c)) @ c_trail c"
    by (simp add: candidate_text_def)
  from token_hd[OF t] obtain x xs where u: "c_url c = x # xs" and x: "\<not> is_space x" by blast
  have "trim (c_lead c @ (c_url c @ tail_text (c_descs c)) @ c_trail c) = c_url c @ tail_text (c_descs c)"
    using l r tokens_last[OF t ds] u x by (intro trim_padded) simp_all
  then show "trim (candidate_text c) = c_url c @ tail_text (c_descs c)"
    by (simp only: eq)
  show "split_ws (c_url c @ tail_text (c_descs c)) = c_url c # map snd (c_descs c)"
    by (rule split_ws_tokens[OF t ds])
qed

lemma resolve_entry_candidate:
  assumes "well_formed_candidate c" and "url_href P (c_url c) baseURL \<noteq> None"
  shows "resolve_entry P baseURL (candidate_text c) = Some (render_entry (resolved_entry P baseURL c))"
proof -
  from assms(2) obtain u where u: "url_href P (c_url c) baseURL = Some u" by blast
  have "render_entry (resolved_entry P baseURL c) = join '' '' (u # map snd (c_descs c))"
    by (simp add: render_entry_def resolved_entry_def u)
  then show ?thesis
    by (simp add: resolve_entry_def candidate_body(2,3)[OF assms(1)] u)
qed

lemma comma_not_space: "\<not> is_space CHR '',''"
  by (simp add: is_space_def)

lemma blank_comma_free: "blank w \<Longrightarrow> CHR '','' \<notin> set w"
  using comma_not_space by (auto simp: blank_def)

lemma token_comma_free: "is_token t \<Longrightarrow> CHR '','' \<notin> set t"
  unfolding is_token_def by blast

lemma comma_free_candidate:
  assumes "well_formed_candidate c"
  shows "CHR '','' \<notin> set (candidate_text c)"
proof
  assume "CHR '','' \<in> set (candidate_text c)"
  then consider "CHR '','' \<in> set (c_lead c)" | "CHR '','' \<in> set (c_url c)"
    | gd where "gd \<in> set (c_descs c)" and "CHR '','' \<in> set (fst gd) \<or> CHR '','' \<in> set (snd gd)"
    | "CHR '','' \<in> set (c_trail c)"
    unfolding candidate_text_def tail_text_def by auto
  then show False
  proof cases
    case 1
    with assms show False
      unfolding well_formed_candidate_def using blank_comma_free by blast
  next
    case 2
    with assms show False
      unfolding well_formed_candidate_def using token_comma_free by blast
  next
    case 3
    with assms have "blank (fst gd)" and "is_token (snd gd)"
      unfolding well_formed_candidate_def by blast+
    with 3 show False using blank_comma_free token_comma_free by blast
  next
    case 4
    with assms show False
      unfolding well_formed_candidate_def using blank_comma_free by blast
  qed
qed

lemma split_char_join:
  "\<forall>x \<in> set (x0 # xs). c \<notin> set x \<Longrightarrow> split_char c (join [c] (x0 # xs)) = x0 # xs"
proof (induction xs arbitrary: x0)
  case Nil
  then show ?case by (simp add: split_char_plain)
next
  case (Cons x1 xs)
  from Cons.prems have c0: "c \<notin> set x0" by simp
  from Cons.prems have r: "\<forall>x \<in> set (x1 # xs). c \<notin> set x" by simp
  have "split_char c (x0 @ c # join [c] (x1 # xs)) = x0 # split_char c (join [c] (x1 # xs))"
    by (rule split_char_append[OF c0])
  then show ?case using Cons.IH[OF r] by simp
qed

lemma candidate_text_nonempty: "well_formed_candidate c \<Longrightarrow> candidate_text c \<noteq> []"
  by (auto simp: well_formed_candidate_def candidate_text_def is_token_def)

lemma resolve_srcset_candidates:
  assumes "cs \<noteq> []" and "\<forall>c \<in> set cs. well_formed_candidate c"
    and "\<forall>c \<in> set cs. url_href P (c_url c) baseURL \<noteq> None"
  shows "resolve_srcset P baseURL (srcset_text cs) =
         Some (render_srcset (map (resolved_entry P baseURL) cs))"
proof -
  from assms(1) obtain c0 rest where cs: "cs = c0 # rest" by (cases cs) auto
  have cf: "\<forall>x \<in> set (candidate_text c0 # map candidate_text rest). CHR '','' \<notin> set x"
    using assms(2) cs by (auto simp: comma_free_candidate)
  have sp: "split_char CHR '','' (srcset_text cs) = map candidate_text cs"
    unfolding srcset_text_def cs using split_char_join[OF cf] by simp
  have "those (map (\<lambda>c. resolve_entry P baseURL (candidate_text c)) cs) =
        Some (map (\<lambda>c. render_entry (resolved_entry P baseURL c)) cs)"
    by (rule those_map_Some) (use assms(2,3) resolve_entry_candidate in blast)
  then show ?thesis
    by (simp add: resolve_srcset_def sp render_srcset_def comp_def)
qed

lemma resolved_value_candidates:
  assumes "cs \<noteq> []" and "\<forall>c \<in> set cs. well_formed_candidate c"
    and "\<not> startsWith (srcset_text cs) ''data:''" and "\<not> startsWith (srcset_text cs) ''#''"
    and "\<forall>c \<in> set cs. url_href P (c_url c) baseURL \<noteq> None"
  shows "resolved_value P baseURL ''srcset'' (srcset_text cs) =
         Some (render_srcset (map (resolved_entry P baseURL) cs))"
proof -
  from assms(1) obtain c0 rest where cs: "cs = c0 # rest" by (cases cs) auto
  with assms(2) have "candidate_text c0 \<noteq> []" by (simp add: candidate_text_nonempty)
  then have "srcset_text cs \<noteq> []"
    by (simp add: srcset_text_def cs join_Cons)
  then show ?thesis
    using assms(3,4) resolve_srcset_candidates[OF assms(1,2,5)]
    by (simp add: resolved_value_def)
qed

subsection \<open>The passes over the attributes\<close>

lemma getAttribute_setAttribute:
  "getAttribute k (setAttribute a v attrs) = (if k = a then Some v else getAttribute k attrs)"
  by (induction attrs) (auto simp: getAttribute_def)

lemma getAttribute_rewrite_attrs_other:
  "k \<noteq> a \<Longrightarrow> getAttribute k (rewrite_attrs P baseURL a attrs) = getAttribute k attrs"
  by (simp add: rewrite_attrs_def getAttribute_setAttribute split: option.splits)

lemma attribute_of_rewrite_node_other:
  "k \<noteq> a \<Longrightarrow> attribute_of k (rewrite_node P baseURL a q n) = attribute_of k n"
  by (cases n) (simp_all add: getAttribute_rewrite_attrs_other)

lemma is_element_rewrite_node [simp]: "is_element (rewrite_node P baseURL a q n) = is_element n"
  by (cases n) simp_all

lemma body_nodes_passes:
  "body_nodes (foldl (\<lambda>d (attr, query).
              \<lparr> head_nodes = map (rewrite_node P baseURL attr query) (head_nodes d),
                body_nodes = map (rewrite_node P baseURL attr query) (body_nodes d) \<rparr>) doc sels)
   = map (\<lambda>n. foldl (\<lambda>m (attr, query). rewrite_node P baseURL attr query m) n sels) (body_nodes doc)"
  by (induction sels arbitrary: doc) (simp_all add: case_prod_beta)

lemma body_nodes_resolveRelativeURLs:
  "body_nodes (resolveRelativeURLs P doc baseURL) = map (rewrite_passes P baseURL) (body_nodes doc)"
  unfolding resolveRelativeURLs_def using body_nodes_passes[of P baseURL doc selectors]
  by (simp add: rewrite_passes_def[abs_def])

lemma is_element_passes:
  "is_element (foldl (\<lambda>m (attr, query). rewrite_node P baseURL attr query m) n sels) = is_element n"
  by (induction sels arbitrary: n) (simp_all add: case_prod_beta)

lemma is_element_rewrite_passes [simp]: "is_element (rewrite_passes P baseURL n) = is_element n"
  by (simp add: rewrite_passes_def is_element_passes)

lemma attribute_of_passes_other:
  "k \<notin> fst ` set sels \<Longrightarrow>
   attribute_of k (foldl (\<lambda>m (attr, query). rewrite_node P baseURL attr query m) n sels) = attribute_of k n"
  by (induction sels arbitrary: n) (auto simp: case_prod_beta attribute_of_rewrite_node_other)

lemma style_rewrite_passes [simp]:
  "attribute_of ''style'' (rewrite_passes P baseURL n) = attribute_of ''style'' n"
  unfolding rewrite_passes_def by (rule attribute_of_passes_other) (simp add: selectors_def)

lemma extract_root_style_skip:
  "\<forall>n \<in> set pre. \<not> is_element n \<Longrightarrow>
   extract_root_style (pre @ ns) = (fst (extract_root_style ns), pre @ snd (extract_root_style ns))"
proof (induction pre)
  case Nil
  show ?case by simp
next
  case (Cons p pre)
  then show ?case by (cases p) (simp_all add: case_prod_beta)
qed

lemma getAttribute_removeAttribute [simp]: "getAttribute k (removeAttribute k attrs) = None"
  by (induction attrs) (auto simp: getAttribute_def removeAttribute_def)

lemma processHTML_Inr:
  "processHTML P rawHTML url = Inr tr \<Longrightarrow>
   hostInlineStyle tr = fst (extract_root_style (body_nodes (without_styles_and_links (parseFromString P rawHTML))))
   \<and> contentHTML tr = innerHTML P (content_tree P (parseFromString P rawHTML) url)"
  by (auto simp: processHTML_def Let_def split: sum.splits)

lemma attribute_of_srcset_pass:
  "attribute_of ''srcset'' n = Some v \<Longrightarrow> resolved_value P baseURL ''srcset'' v = Some r \<Longrightarrow>
   attribute_of ''srcset'' (rewrite_node P baseURL ''srcset'' (\<lambda>t attrs. has_attr ''srcset'' attrs) n) = Some r"
  by (cases n) (simp_all add: has_attr_def rewrite_attrs_def getAttribute_setAttribute)

lemma passes_Element:
  "\<exists>attrs'. foldl (\<lambda>m (attr, query). rewrite_node P baseURL attr query m) (Element t attrs cs) sels
      = Element t attrs'
          (map (\<lambda>n. foldl (\<lambda>m (attr, query). rewrite_node P baseURL attr query m) n sels) cs)"
proof (induction sels arbitrary: attrs cs)
  case Nil
  show ?case by simp
next
  case (Cons sel sels)
  obtain a q where sel: "sel = (a, q)" by (cases sel)
  from Cons.IH[of "if q t attrs then rewrite_attrs P baseURL a attrs else attrs"
                  "map (rewrite_node P baseURL a q) cs"]
  show ?case by (simp add: sel comp_def)
qed

lemma rewrite_passes_Element:
  "\<exists>attrs'. rewrite_passes P baseURL (Element t attrs cs)
      = Element t attrs' (map (rewrite_passes P baseURL) cs)"
  using passes_Element[of P baseURL t attrs cs selectors]
  by (simp add: rewrite_passes_def[abs_def])


subsection \<open>A change of an attribute\<close>




lemma observers_beginLoad [simp]: "observers (beginLoad P i s) = observers s"
  by (simp add: beginLoad_def fetchWithCache_def Let_def case_prod_beta update_instance_def set_attr_def
        split: option.splits)









section \<open>The claims\<close>




text \<open>
  C2, as stated: at every mutation point of the two mappings, the store of
  \<^verbatim>\<open>prefetch\<close> among them, no URL is in both mappings. It fails where \<^verbatim>\<open>prefetch\<close>
  stores its text while \<^verbatim>\<open>_fetchWithCache\<close> has the same URL pending: the URL is then
  in both.
\<close>

theorem prefetch_store_breaks_exclusion:
  "\<not> exclusive (run sample_platform race_trace initial)"
proof -
  have "cache (run sample_platform race_trace initial) ''https://x/dir/a.html'' = Some ''<p>hi</p>''"
    by (simp add: race_trace_def eval_defs)
  moreover have "pending (run sample_platform race_trace initial) ''https://x/dir/a.html'' = Some 0"
    by (simp add: race_trace_def eval_defs)
  ultimately show ?thesis by (auto simp: exclusive_def)
qed

text \<open>
  C2, amended: from the initial state, after every prefix of a run in which no request
  of \<^verbatim>\<open>prefetch\<close> settles while its URL is pending, no URL is in both the cache mapping
  and the pending mapping. The run may hold every other event: the registration, the
  success and the failure handler of \<^verbatim>\<open>_fetchWithCache\<close>, the eviction of
  \<^verbatim>\<open>reload\<close>, \<^verbatim>\<open>clearCache\<close>, and \<^verbatim>\<open>prefetch\<close> for a URL that is not pending.
\<close>

theorem exclusion_without_prefetch_race:
  "race_free P es initial \<Longrightarrow> exclusive (run P (take n es) initial)"
  by (rule exclusive_run) (simp add: exclusive_def initial_def)

theorem exclusion_without_prefetch_race_witness:
  "race_free sample_platform calm_trace initial
   \<and> exclusive (run sample_platform (take 6 calm_trace) initial)"
proof -
  have h: "race_free sample_platform calm_trace initial"
    by (simp add: calm_trace_def eval_defs)
  show ?thesis
    using h exclusion_without_prefetch_race[OF h, of 6] by simp
qed

text \<open>
  C3, evaluated where it fails: two connected elements share one retrieval, the first
  has started it and the second borrows it. The first is disconnected, which aborts the
  fetch through the signal of its controller. The network would have answered 200, but
  the retrieval is rejected with the AbortError for the second element too: it stays
  connected and busy, its shadow root keeps the placeholder, and no signal is
  dispatched. Without the disconnection the second element is injected.
\<close>

theorem owner_abort_reaches_borrower:
  "w_inst (waiters shared_state ! 1) = 1
   \<and> w_on (waiters shared_state ! 1) = OnRequest 0
   \<and> abortController (instances shared_state 0) = Some 0
   \<and> abortController (instances shared_state 1) = None
   \<and> observe (run sample_platform (Disconnect 0 # resolution) shared_state) (OnRequest 0)
       = Some (Rejected AbortError)
   \<and> isConnected (instances (run sample_platform (Disconnect 0 # resolution) shared_state) 1)
   \<and> shadowRoot (instances (run sample_platform (Disconnect 0 # resolution) shared_state) 1) = Placeholder
   \<and> attributes (instances (run sample_platform (Disconnect 0 # resolution) shared_state) 1) ''aria-busy''
       = Some ''true''
   \<and> waiters (run sample_platform (Disconnect 0 # resolution) shared_state) = []
   \<and> frames (run sample_platform (Disconnect 0 # resolution) shared_state) = []
   \<and> signals (run sample_platform (Disconnect 0 # resolution) shared_state) = []
   \<and> shadowRoot (instances (run sample_platform resolution shared_state) 1)
       = Injected None [] ''<p>hi</p>''"
  by (simp add: resolution_def shared_state_def eval_defs transform_defs)

text \<open>
  C4, as stated: \<^verbatim>\<open>reload()\<close> on an element with a source causes a new retrieval even
  while a retrieval for that URL is pending. It fails there: \<^verbatim>\<open>reload()\<close> on the
  element whose retrieval is in flight issues no request.
\<close>

theorem reload_joins_pending:
  "pending loading_state ''https://x/dir/a.html'' = Some 0
   \<and> attributes (instances loading_state 0) ''src'' = Some ''a.html''
   \<and> requests (step sample_platform (Reload 0) loading_state) = requests loading_state"
  by (simp add: loading_state_def eval_defs)

text \<open>
  C4, amended: for an element whose \<^verbatim>\<open>src\<close> is not empty and resolves to a URL,
  \<^verbatim>\<open>reload()\<close> issues one new retrieval for that URL whenever no retrieval for it is
  pending, whether or not the URL is cached; while a retrieval for it is pending,
  \<^verbatim>\<open>reload()\<close> issues none and waits for the pending one.
\<close>

theorem reload_retrieves_unless_pending:
  assumes "attributes (instances s i) ''src'' = Some src" and "src \<noteq> []"
    and "url_href P src (baseURI P) = Some u"
  shows "(pending s u = None \<longrightarrow>
            requests (reload P i s) = requests s @ [\<lparr> r_url = u, r_shared = True, r_state = InFlight \<rparr>]
            \<and> pending (reload P i s) u = Some (length (requests s)))
       \<and> (\<forall>r. pending s u = Some r \<longrightarrow>
            requests (reload P i s) = requests s
            \<and> w_on (last (waiters (reload P i s))) = OnRequest r)"
  using assms
  by (auto simp: reload_def beginLoad_def fetchWithCache_def destroyObserver_def update_instance_def
        set_attr_def Let_def split: option.splits)

theorem reload_retrieves_unless_pending_witness:
  "attributes (instances cached_state 0) ''src'' = Some ''a.html'' \<and> ''a.html'' \<noteq> []
   \<and> url_href sample_platform ''a.html'' (baseURI sample_platform) = Some ''https://x/dir/a.html''
   \<and> cache cached_state ''https://x/dir/a.html'' = Some ''<p>hi</p>''
   \<and> pending cached_state ''https://x/dir/a.html'' = None
   \<and> requests (reload sample_platform 0 cached_state) =
       requests cached_state @ [\<lparr> r_url = ''https://x/dir/a.html'', r_shared = True, r_state = InFlight \<rparr>]"
proof -
  have a: "attributes (instances cached_state 0) ''src'' = Some ''a.html''"
    by (simp add: cached_state_def eval_defs)
  have b: "''a.html'' \<noteq> []" by simp
  have c: "url_href sample_platform ''a.html'' (baseURI sample_platform) = Some ''https://x/dir/a.html''"
    by (simp add: sample_platform_def sample_href_def directory_def startsWith_def)
  have d: "cache cached_state ''https://x/dir/a.html'' = Some ''<p>hi</p>''"
    by (simp add: cached_state_def eval_defs)
  have e: "pending cached_state ''https://x/dir/a.html'' = None"
    by (simp add: cached_state_def eval_defs)
  show ?thesis
    using a c d e reload_retrieves_unless_pending[OF a b c] by simp
qed




text \<open>
  C6, as stated: after a retrieval of \<^verbatim>\<open>_fetchWithCache\<close> has failed, the URL is in
  neither mapping and the next caller issues a fresh retrieval. It fails where the URL
  was cached while the retrieval was in flight, here by \<^verbatim>\<open>prefetch\<close>: the failure
  handler leaves the cache as it is, the URL stays cached, and the next caller gets the
  cached text.
\<close>

theorem failure_after_prefetch_leaves_cached:
  "r_state (requests (run sample_platform failed_race_trace initial) ! 0) = Settled (Rejected (TransportError ''offline''))
   \<and> r_url (requests (run sample_platform failed_race_trace initial) ! 0) = ''https://x/dir/a.html''
   \<and> cache (run sample_platform failed_race_trace initial) ''https://x/dir/a.html'' = Some ''<p>hi</p>''
   \<and> fst (fetchWithCache 1 ''https://x/dir/a.html'' (run sample_platform failed_race_trace initial)) = Ready ''<p>hi</p>''"
  by (simp add: failed_race_trace_def race_trace_def eval_defs)

text \<open>
  C6, amended: when a retrieval of \<^verbatim>\<open>_fetchWithCache\<close> fails (a failure of the
  transport or a status outside 200 to 299), the pending entry of its URL is removed, the
  cache mapping is left unchanged, and every waiter of the retrieval observes that
  failure and, when it continues, dispatches \<^verbatim>\<open>templastic-error\<close> with it. If the URL
  is not cached at that moment, it is then in neither mapping and the next call of
  \<^verbatim>\<open>_fetchWithCache\<close> for it issues a fresh retrieval.
\<close>

theorem failure_clears_pending:
  assumes "r < length (requests s)" and "r_shared (requests s ! r)"
    and "r_state (requests s ! r) = InFlight"
    and "response_outcome True resp = Rejected e"
  shows "pending (settle r resp s) (r_url (requests s ! r)) = None
       \<and> cache (settle r resp s) = cache s
       \<and> waiters (settle r resp s) = waiters s
       \<and> observe (settle r resp s) (OnRequest r) = Some (Rejected e)
       \<and> (\<forall>k. k < length (waiters s) \<longrightarrow> w_on (waiters s ! k) = OnRequest r \<longrightarrow>
            signals (resume P k (settle r resp s)) =
              signals s @ [(w_inst (waiters s ! k), TemplasticError e (w_src (waiters s ! k)))])
       \<and> (cache s (r_url (requests s ! r)) = None \<longrightarrow>
            cache (settle r resp s) (r_url (requests s ! r)) = None
            \<and> fst (fetchWithCache j (r_url (requests s ! r)) (settle r resp s)) = OnRequest (length (requests s))
            \<and> requests (snd (fetchWithCache j (r_url (requests s ! r)) (settle r resp s))) =
                requests (settle r resp s) @
                  [\<lparr> r_url = r_url (requests s ! r), r_shared = True, r_state = InFlight \<rparr>])"
proof -
  have ne: "e \<noteq> AbortError"
    using assms(4) response_outcome_not_abort[of True resp] by auto
  let ?t = "s\<lparr> requests := (requests s)[r := (requests s ! r)\<lparr> r_state := Settled (Rejected e) \<rparr>],
               pending := (pending s)(r_url (requests s ! r) := None) \<rparr>"
  have t: "settle r resp s = ?t"
    using assms by (simp add: settle_def Let_def)
  have obs: "observe ?t (OnRequest r) = Some (Rejected e)"
    using assms(1) by (simp add: observe_def)
  have res: "\<forall>k. k < length (waiters s) \<longrightarrow> w_on (waiters s ! k) = OnRequest r \<longrightarrow>
            signals (resume P k ?t) =
              signals s @ [(w_inst (waiters s ! k), TemplasticError e (w_src (waiters s ! k)))]"
    using obs ne by (simp add: resume_def Let_def report_error_def set_attr_def update_instance_def)
  have fresh: "cache s (r_url (requests s ! r)) = None \<longrightarrow>
            cache ?t (r_url (requests s ! r)) = None
            \<and> fst (fetchWithCache j (r_url (requests s ! r)) ?t) = OnRequest (length (requests s))
            \<and> requests (snd (fetchWithCache j (r_url (requests s ! r)) ?t)) =
                requests ?t @
                  [\<lparr> r_url = r_url (requests s ! r), r_shared = True, r_state = InFlight \<rparr>]"
    by (simp add: fetchWithCache_def Let_def update_instance_def)
  show ?thesis
    unfolding t using obs res fresh by simp
qed

theorem failure_clears_pending_witness:
  "0 < length (requests loading_state) \<and> r_shared (requests loading_state ! 0)
   \<and> r_state (requests loading_state ! 0) = InFlight
   \<and> response_outcome True (Response 404 ''Not Found'' []) = Rejected (HTTPError 404 ''Not Found'')
   \<and> cache loading_state ''https://x/dir/a.html'' = None
   \<and> pending (settle 0 (Response 404 ''Not Found'' []) loading_state) ''https://x/dir/a.html'' = None
   \<and> cache (settle 0 (Response 404 ''Not Found'' []) loading_state) ''https://x/dir/a.html'' = None
   \<and> observe (settle 0 (Response 404 ''Not Found'' []) loading_state) (OnRequest 0)
       = Some (Rejected (HTTPError 404 ''Not Found''))
   \<and> fst (fetchWithCache 1 ''https://x/dir/a.html'' (settle 0 (Response 404 ''Not Found'' []) loading_state))
       = OnRequest 1"
proof -
  have a: "0 < length (requests loading_state)" by (simp add: loading_state_eq)
  have b: "r_shared (requests loading_state ! 0)" by (simp add: loading_state_eq)
  have c: "r_state (requests loading_state ! 0) = InFlight" by (simp add: loading_state_eq)
  have d: "response_outcome True (Response 404 ''Not Found'' []) = Rejected (HTTPError 404 ''Not Found'')"
    by (simp add: response_outcome_def)
  have u: "r_url (requests loading_state ! 0) = ''https://x/dir/a.html''"
    by (simp add: loading_state_eq)
  show ?thesis
    using a b c d failure_clears_pending[OF a b c d, of sample_platform 1] loading_state_eq(2)
    unfolding u by (simp add: loading_state_eq(3))
qed

text \<open>
  C7, as stated: an element that is disconnected while its retrieval is pending never
  has its shadow root written and never dispatches \<^verbatim>\<open>templastic-loaded\<close> when the
  retrieval resolves. It fails for an element that is connected again before the
  retrieval resolves. The element 1 waits for the retrieval that the element 0 started;
  it is removed, which aborts nothing, and inserted again, which starts no run since
  \<^verbatim>\<open>_hasLoaded\<close> is still set; when the retrieval resolves, the run from before the
  removal finds the element connected, writes the shadow root and dispatches the signal.
\<close>

theorem reconnected_instance_injects:
  "w_inst (waiters shared_state ! 1) = 1 \<and> w_on (waiters shared_state ! 1) = OnRequest 0
   \<and> \<not> isConnected (instances (step sample_platform (Disconnect 1) shared_state) 1)
   \<and> r_state (requests (step sample_platform (Disconnect 1) shared_state) ! 0) = InFlight
   \<and> r_state (requests (run sample_platform [Disconnect 1, Connect 1] shared_state) ! 0) = InFlight
   \<and> shadowRoot (instances (run sample_platform [Disconnect 1, Connect 1] shared_state) 1) = Placeholder
   \<and> shadowRoot (instances (run sample_platform reconnected shared_state) 1)
        = Injected None [] ''<p>hi</p>''
   \<and> loaded_signals 1 (run sample_platform reconnected shared_state)
        = [(1, TemplasticLoaded (Some ''a.html'') 0 0 False)]"
  by (simp add: reconnected_def resolution_def shared_state_def loaded_signals_def eval_defs transform_defs)

text \<open>
  C7, amended: an element that is disconnected, whatever it waits for (a retrieval, a
  frame), never has its shadow root written and never dispatches \<^verbatim>\<open>templastic-loaded\<close>
  afterwards, whatever happens next (the retrieval resolving, its run continuing, frames
  passing), for as long as it is not connected again.
\<close>

theorem disconnected_instance_never_injects:
  assumes "Connect i \<notin> set es"
  shows "shadowRoot (instances (run P es (step P (Disconnect i) s)) i) = shadowRoot (instances s i)
       \<and> loaded_signals i (run P es (step P (Disconnect i) s)) = loaded_signals i s"
proof -
  have d: "\<not> isConnected (instances (step P (Disconnect i) s) i)"
    using face_abortFetch[of i i] face_destroyObserver[of i i]
    by (simp add: disconnectedCallback_def face_def) (simp add: update_instance_def)
  have e: "face i (step P (Disconnect i) s) = (False, shadowRoot (instances s i), signals s)"
    by (simp add: disconnectedCallback_def) (simp add: face_def update_instance_def)
  from d assms have "quiet i (step P (Disconnect i) s) (run P es (step P (Disconnect i) s))"
    by (rule quiet_run)
  with e show ?thesis by (simp add: quiet_def face_def loaded_signals_def)
qed

theorem disconnected_instance_never_injects_witness:
  "Connect 1 \<notin> set resolution
   \<and> w_on (waiters shared_state ! 1) = OnRequest 0 \<and> w_inst (waiters shared_state ! 1) = 1
   \<and> observe (run sample_platform resolution (step sample_platform (Disconnect 1) shared_state))
        (OnRequest 0) = Some (Fulfilled ''<p>hi</p>'')
   \<and> shadowRoot (instances (run sample_platform resolution
        (step sample_platform (Disconnect 1) shared_state)) 1) = Placeholder
   \<and> loaded_signals 1 (run sample_platform resolution
        (step sample_platform (Disconnect 1) shared_state)) = []
   \<and> map fst (frames framed_state) = [0]
   \<and> frames (run sample_platform [AnimationFrame] (step sample_platform (Disconnect 0) framed_state)) = []
   \<and> shadowRoot (instances (run sample_platform [AnimationFrame]
        (step sample_platform (Disconnect 0) framed_state)) 0) = Placeholder"
proof -
  have f1: "map fst (frames framed_state) = [0]"
    and f2: "shadowRoot (instances framed_state 0) = Placeholder"
    and f3: "frames (run sample_platform [AnimationFrame]
               (step sample_platform (Disconnect 0) framed_state)) = []"
    by (simp_all add: framed_state_def eval_defs transform_defs)
  have f4: "Connect 0 \<notin> set [AnimationFrame]" by simp
  have f5: "shadowRoot (instances (run sample_platform [AnimationFrame]
        (step sample_platform (Disconnect 0) framed_state)) 0) = Placeholder"
    using disconnected_instance_never_injects[OF f4, of sample_platform framed_state] f2 by simp
  have a: "Connect 1 \<notin> set resolution" by (simp add: resolution_def)
  have b: "shadowRoot (instances shared_state 1) = Placeholder"
    by (simp add: shared_state_def eval_defs)
  have c: "loaded_signals 1 shared_state = []"
    by (simp add: loaded_signals_def shared_state_def eval_defs)
  have d: "w_on (waiters shared_state ! 1) = OnRequest 0 \<and> w_inst (waiters shared_state ! 1) = 1"
    by (simp add: shared_state_def eval_defs)
  have e: "observe (run sample_platform resolution (step sample_platform (Disconnect 1) shared_state))
        (OnRequest 0) = Some (Fulfilled ''<p>hi</p>'')"
    by (simp add: resolution_def shared_state_def eval_defs transform_defs)
  show ?thesis
    using a b c d e f1 f3 f5
      disconnected_instance_never_injects[OF a, of sample_platform shared_state]
    by simp
qed

text \<open>
  C8: the transform has parsed the markup and has taken out the style blocks and the
  stylesheet links. If the first child of the body that is an element then carries a
  \<^verbatim>\<open>style\<close> attribute of which \<^verbatim>\<open>trim()\<close> leaves something, the transform records the
  value of the attribute as \<open>hostInlineStyle\<close>, and the content markup is the
  serialisation of a tree whose first element has no \<^verbatim>\<open>style\<close> attribute. Only this
  element is inspected: the nodes after it keep their \<^verbatim>\<open>style\<close> attributes. For the
  body \<^verbatim>\<open><div style="color:red"><p>hi</p></div>\<close> the recorded style is
  \<^verbatim>\<open>color:red\<close> and the root of the content markup has no \<^verbatim>\<open>style\<close> attribute.
\<close>

theorem root_inline_style_hoisted:
  assumes "body_nodes (without_styles_and_links (parseFromString P rawHTML)) = pre @ Element t attrs cs # rest"
    and "\<forall>n \<in> set pre. \<not> is_element n"
    and "getAttribute ''style'' attrs = Some v" and "trim v \<noteq> []"
    and "processHTML P rawHTML url = Inr tr"
  shows "hostInlineStyle tr = Some v
       \<and> contentHTML tr = innerHTML P (content_tree P (parseFromString P rawHTML) url)
       \<and> content_tree P (parseFromString P rawHTML) url =
           map (rewrite_passes P url) pre
           @ rewrite_passes P url (Element t (removeAttribute ''style'' attrs) cs)
           # map (rewrite_passes P url) rest
       \<and> (\<forall>n \<in> set (map (rewrite_passes P url) pre). \<not> is_element n)
       \<and> is_element (rewrite_passes P url (Element t (removeAttribute ''style'' attrs) cs))
       \<and> attribute_of ''style'' (rewrite_passes P url (Element t (removeAttribute ''style'' attrs) cs)) = None
       \<and> map (attribute_of ''style'') (map (rewrite_passes P url) rest) = map (attribute_of ''style'') rest"
proof -
  from assms(4) have nv: "v \<noteq> []" by (auto simp: trim_def)
  have ex: "extract_root_style (pre @ Element t attrs cs # rest) =
            (Some v, pre @ Element t (removeAttribute ''style'' attrs) cs # rest)"
    using assms(3,4) nv by (simp add: extract_root_style_skip[OF assms(2)])
  have ct: "content_tree P (parseFromString P rawHTML) url =
           map (rewrite_passes P url) pre
           @ rewrite_passes P url (Element t (removeAttribute ''style'' attrs) cs)
           # map (rewrite_passes P url) rest"
    by (simp add: content_tree_def body_nodes_resolveRelativeURLs assms(1) ex)
  show ?thesis
    using processHTML_Inr[OF assms(5)] assms(2) ct
    by (simp add: assms(1) ex)
qed

theorem root_inline_style_hoisted_witness:
  "body_nodes (without_styles_and_links
      (parseFromString sample_platform ''<div style=\"color:red\"><p>hi</p></div>''))
     = [] @ Element ''div'' [(''style'', ''color:red'')] [Element ''p'' [] [Text ''hi'']] # []
   \<and> getAttribute ''style'' [(''style'', ''color:red'')] = Some ''color:red''
   \<and> trim ''color:red'' \<noteq> []
   \<and> (\<exists>tr. processHTML sample_platform ''<div style=\"color:red\"><p>hi</p></div>''
               ''https://x/dir/a.html'' = Inr tr
            \<and> hostInlineStyle tr = Some ''color:red''
            \<and> contentHTML tr = ''<div><p>hi</p></div>'')
   \<and> (\<exists>tr. processHTML sample_platform
               ''<div style=\"color:red\"><p>hi</p></div><p style=\"margin:0\">bye</p>''
               ''https://x/dir/a.html'' = Inr tr
            \<and> hostInlineStyle tr = Some ''color:red''
            \<and> contentHTML tr = ''<div><p>hi</p></div><p style=\"margin:0\">bye</p>'')"
proof -
  let ?raw = "''<div style=\"color:red\"><p>hi</p></div>''"
  let ?raw2 = "''<div style=\"color:red\"><p>hi</p></div><p style=\"margin:0\">bye</p>''"
  let ?div = "Element ''div'' [(''style'', ''color:red'')] [Element ''p'' [] [Text ''hi'']]"
  let ?p = "Element ''p'' [(''style'', ''margin:0'')] [Text ''bye'']"
  have a: "body_nodes (without_styles_and_links (parseFromString sample_platform ?raw))
             = [] @ ?div # []"
    by (simp add: sample_platform_def transform_defs)
  have a2: "body_nodes (without_styles_and_links (parseFromString sample_platform ?raw2))
             = [] @ ?div # [?p]"
    by (simp add: sample_platform_def transform_defs)
  have b: "\<forall>n \<in> set []. \<not> is_element n" by simp
  have c: "getAttribute ''style'' [(''style'', ''color:red'')] = Some ''color:red''"
    by (simp add: getAttribute_def)
  have d: "trim ''color:red'' \<noteq> []" by (simp add: trim_def is_space_def)
  have e: "processHTML sample_platform ?raw ''https://x/dir/a.html'' =
             Inr \<lparr> extractedCSS = [], resolvedLinks = [], contentHTML = ''<div><p>hi</p></div>'',
                   hostInlineStyle = Some ''color:red'' \<rparr>"
    by (simp add: sample_platform_def transform_defs)
  have e2: "processHTML sample_platform ?raw2 ''https://x/dir/a.html'' =
             Inr \<lparr> extractedCSS = [], resolvedLinks = [],
                   contentHTML = ''<div><p>hi</p></div><p style=\"margin:0\">bye</p>'',
                   hostInlineStyle = Some ''color:red'' \<rparr>"
    by (simp add: sample_platform_def transform_defs)
  from root_inline_style_hoisted[OF a b c d e]
  have f: "\<exists>tr. processHTML sample_platform ?raw ''https://x/dir/a.html'' = Inr tr
            \<and> hostInlineStyle tr = Some ''color:red''
            \<and> contentHTML tr = ''<div><p>hi</p></div>''"
    using e by simp
  from root_inline_style_hoisted[OF a2 b c d e2]
  have f2: "\<exists>tr. processHTML sample_platform ?raw2 ''https://x/dir/a.html'' = Inr tr
            \<and> hostInlineStyle tr = Some ''color:red''
            \<and> contentHTML tr = ''<div><p>hi</p></div><p style=\"margin:0\">bye</p>''"
    using e2 by simp
  from a c d f f2 show ?thesis by blast
qed

text \<open>
  C9, as stated: the URL of every entry of every \<^verbatim>\<open>srcset\<close> is rewritten. It fails
  for a value that begins with \<^verbatim>\<open>#\<close> or with \<^verbatim>\<open>data:\<close>: the guard at the head of
  the loop skips the element, and the URL of a later entry stays relative.
\<close>

theorem srcset_skipped_by_guard:
  "url_href sample_platform ''img2.png'' ''https://x/dir/page.html'' = Some ''https://x/dir/img2.png''
   \<and> attribute_of ''srcset''
        (rewrite_passes sample_platform ''https://x/dir/page.html''
           (Element ''img'' [(''srcset'', ''#a.png 1x, img2.png 2x'')] []))
       = Some ''#a.png 1x, img2.png 2x''
   \<and> attribute_of ''srcset''
        (rewrite_passes sample_platform ''https://x/dir/page.html''
           (Element ''img'' [(''srcset'', ''data:image/gif;base64,R0lGODlhAQABAAAAACw= 1x, img2.png 2x'')] []))
       = Some ''data:image/gif;base64,R0lGODlhAQABAAAAACw= 1x, img2.png 2x''"
  by (simp add: rewrite_passes_def selectors_def has_attr_def getAttribute_def rewrite_attrs_def
        resolved_value_def startsWith_def sample_platform_def sample_href_def directory_def)

text \<open>
  C9, amended: an element carries a \<^verbatim>\<open>srcset\<close> whose value is a list of entries with
  commas between them, each entry a URL followed by its descriptors, with any white
  space around the entry and any white space, at least one character, before each
  descriptor; the value does not begin with \<^verbatim>\<open>data:\<close> or with \<^verbatim>\<open>#\<close>, and the URL
  of every entry resolves against the base URL. Then the transform leaves the element
  with the \<^verbatim>\<open>srcset\<close> in which the URL of each entry is replaced by its absolute
  form, with the same descriptors and the same order of entries, written with one space
  inside an entry and a comma and a space between entries; its children are transformed
  in the same way. In particular \<^verbatim>\<open>img.png 1x, img2.png 2x\<close> at the base
  \<^verbatim>\<open>https://x/dir/page.html\<close> becomes
  \<^verbatim>\<open>https://x/dir/img.png 1x, https://x/dir/img2.png 2x\<close>, and so does
  \<^verbatim>\<open>img.png 1x,img2.png 2x\<close>.
\<close>

theorem srcset_entries_rewritten:
  assumes "cs \<noteq> []" and "\<forall>c \<in> set cs. well_formed_candidate c"
    and "\<not> startsWith (srcset_text cs) ''data:''" and "\<not> startsWith (srcset_text cs) ''#''"
    and "\<forall>c \<in> set cs. url_href P (c_url c) baseURL \<noteq> None"
    and "getAttribute ''srcset'' attrs = Some (srcset_text cs)"
  shows "attribute_of ''srcset'' (rewrite_passes P baseURL (Element t attrs ns)) =
           Some (render_srcset (map (resolved_entry P baseURL) cs))
       \<and> (\<exists>attrs'. rewrite_passes P baseURL (Element t attrs ns) =
             Element t attrs' (map (rewrite_passes P baseURL) ns))"
proof -
  let ?n3 = "rewrite_node P baseURL ''action'' (\<lambda>t attrs. t = ''form'' \<and> has_attr ''action'' attrs)
              (rewrite_node P baseURL ''href'' (\<lambda>t attrs. (t = ''a'' \<or> t = ''area'') \<and> has_attr ''href'' attrs)
                (rewrite_node P baseURL ''src'' (\<lambda>t attrs. has_attr ''src'' attrs) (Element t attrs ns)))"
  have "attribute_of ''srcset'' (Element t attrs ns) = Some (srcset_text cs)"
    using assms(6) by simp
  then have before: "attribute_of ''srcset'' ?n3 = Some (srcset_text cs)"
    by (simp add: attribute_of_rewrite_node_other del: rewrite_node.simps)
  have "attribute_of ''srcset''
          (rewrite_node P baseURL ''srcset'' (\<lambda>t attrs. has_attr ''srcset'' attrs) ?n3) =
        Some (render_srcset (map (resolved_entry P baseURL) cs))"
    by (rule attribute_of_srcset_pass[OF before resolved_value_candidates[OF assms(1-5)]])
  then have "attribute_of ''srcset'' (rewrite_passes P baseURL (Element t attrs ns)) =
           Some (render_srcset (map (resolved_entry P baseURL) cs))"
    by (simp add: rewrite_passes_def selectors_def attribute_of_rewrite_node_other
          del: rewrite_node.simps)
  with rewrite_passes_Element[of P baseURL t attrs ns] show ?thesis by blast
qed

theorem srcset_entries_rewritten_witness:
  "well_formed_candidate \<lparr> c_lead = [], c_url = ''img.png'', c_descs = [('' '', ''1x'')], c_trail = [] \<rparr>
   \<and> well_formed_candidate \<lparr> c_lead = '' '', c_url = ''img2.png'', c_descs = [('' '', ''2x'')], c_trail = [] \<rparr>
   \<and> well_formed_candidate \<lparr> c_lead = [], c_url = ''img2.png'', c_descs = [('' '', ''2x'')], c_trail = [] \<rparr>
   \<and> well_formed_candidate
        \<lparr> c_lead = ''  '', c_url = ''img.png'', c_descs = [(''   '', ''480w'')], c_trail = '' '' \<rparr>
   \<and> well_formed_candidate \<lparr> c_lead = [], c_url = ''img2.png'', c_descs = [], c_trail = [] \<rparr>
   \<and> srcset_text
        [\<lparr> c_lead = [], c_url = ''img.png'', c_descs = [('' '', ''1x'')], c_trail = [] \<rparr>,
         \<lparr> c_lead = '' '', c_url = ''img2.png'', c_descs = [('' '', ''2x'')], c_trail = [] \<rparr>]
       = ''img.png 1x, img2.png 2x''
   \<and> srcset_text
        [\<lparr> c_lead = [], c_url = ''img.png'', c_descs = [('' '', ''1x'')], c_trail = [] \<rparr>,
         \<lparr> c_lead = [], c_url = ''img2.png'', c_descs = [('' '', ''2x'')], c_trail = [] \<rparr>]
       = ''img.png 1x,img2.png 2x''
   \<and> srcset_text
        [\<lparr> c_lead = ''  '', c_url = ''img.png'', c_descs = [(''   '', ''480w'')], c_trail = '' '' \<rparr>,
         \<lparr> c_lead = [], c_url = ''img2.png'', c_descs = [], c_trail = [] \<rparr>]
       = ''  img.png   480w ,img2.png''
   \<and> url_href sample_platform ''img.png'' ''https://x/dir/page.html'' = Some ''https://x/dir/img.png''
   \<and> url_href sample_platform ''img2.png'' ''https://x/dir/page.html'' = Some ''https://x/dir/img2.png''
   \<and> attribute_of ''srcset''
        (rewrite_passes sample_platform ''https://x/dir/page.html''
           (Element ''img'' [(''srcset'', ''img.png 1x, img2.png 2x'')] []))
       = Some ''https://x/dir/img.png 1x, https://x/dir/img2.png 2x''
   \<and> attribute_of ''srcset''
        (rewrite_passes sample_platform ''https://x/dir/page.html''
           (Element ''img'' [(''srcset'', ''img.png 1x,img2.png 2x'')] []))
       = Some ''https://x/dir/img.png 1x, https://x/dir/img2.png 2x''
   \<and> attribute_of ''srcset''
        (rewrite_passes sample_platform ''https://x/dir/page.html''
           (Element ''img'' [(''srcset'', ''  img.png   480w ,img2.png'')] []))
       = Some ''https://x/dir/img.png 480w, https://x/dir/img2.png''"
proof -
  let ?a = "\<lparr> c_lead = [], c_url = ''img.png'', c_descs = [('' '', ''1x'')], c_trail = [] \<rparr>"
  let ?b = "\<lparr> c_lead = '' '', c_url = ''img2.png'', c_descs = [('' '', ''2x'')], c_trail = [] \<rparr>"
  let ?c = "\<lparr> c_lead = [], c_url = ''img2.png'', c_descs = [('' '', ''2x'')], c_trail = [] \<rparr>"
  let ?d = "\<lparr> c_lead = ''  '', c_url = ''img.png'', c_descs = [(''   '', ''480w'')], c_trail = '' '' \<rparr>"
  let ?e = "\<lparr> c_lead = [], c_url = ''img2.png'', c_descs = [], c_trail = [] \<rparr>"
  let ?base = "''https://x/dir/page.html''"
  have wf: "well_formed_candidate ?a" "well_formed_candidate ?b" "well_formed_candidate ?c"
    "well_formed_candidate ?d" "well_formed_candidate ?e"
    by (simp_all add: well_formed_candidate_def blank_def is_token_def is_space_def)
  have t1: "srcset_text [?a, ?b] = ''img.png 1x, img2.png 2x''"
    and t2: "srcset_text [?a, ?c] = ''img.png 1x,img2.png 2x''"
    and t3: "srcset_text [?d, ?e] = ''  img.png   480w ,img2.png''"
    by (simp_all add: srcset_text_def candidate_text_def tail_text_def)
  have u1: "url_href sample_platform ''img.png'' ?base = Some ''https://x/dir/img.png''"
    and u2: "url_href sample_platform ''img2.png'' ?base = Some ''https://x/dir/img2.png''"
    by (simp_all add: sample_platform_def sample_href_def startsWith_def directory_def)
  have r1: "render_srcset (map (resolved_entry sample_platform ?base) [?a, ?b])
            = ''https://x/dir/img.png 1x, https://x/dir/img2.png 2x''"
    and r2: "render_srcset (map (resolved_entry sample_platform ?base) [?a, ?c])
            = ''https://x/dir/img.png 1x, https://x/dir/img2.png 2x''"
    and r3: "render_srcset (map (resolved_entry sample_platform ?base) [?d, ?e])
            = ''https://x/dir/img.png 480w, https://x/dir/img2.png''"
    by (simp_all add: render_srcset_def render_entry_def resolved_entry_def u1 u2)
  have n1: "[?a, ?b] \<noteq> []" and n2: "[?a, ?c] \<noteq> []" and n3: "[?d, ?e] \<noteq> []"
    by simp_all
  have w1: "\<forall>c \<in> set [?a, ?b]. well_formed_candidate c"
    and w2: "\<forall>c \<in> set [?a, ?c]. well_formed_candidate c"
    and w3: "\<forall>c \<in> set [?d, ?e]. well_formed_candidate c"
    using wf by simp_all
  have d1: "\<not> startsWith (srcset_text [?a, ?b]) ''data:''"
    and d2: "\<not> startsWith (srcset_text [?a, ?c]) ''data:''"
    and d3: "\<not> startsWith (srcset_text [?d, ?e]) ''data:''"
    unfolding t1 t2 t3 by (simp_all add: startsWith_def)
  have h1: "\<not> startsWith (srcset_text [?a, ?b]) ''#''"
    and h2: "\<not> startsWith (srcset_text [?a, ?c]) ''#''"
    and h3: "\<not> startsWith (srcset_text [?d, ?e]) ''#''"
    unfolding t1 t2 t3 by (simp_all add: startsWith_def)
  have v1: "\<forall>c \<in> set [?a, ?b]. url_href sample_platform (c_url c) ?base \<noteq> None"
    and v2: "\<forall>c \<in> set [?a, ?c]. url_href sample_platform (c_url c) ?base \<noteq> None"
    and v3: "\<forall>c \<in> set [?d, ?e]. url_href sample_platform (c_url c) ?base \<noteq> None"
    by (simp_all add: u1 u2)
  have a1: "getAttribute ''srcset'' [(''srcset'', ''img.png 1x, img2.png 2x'')] = Some (srcset_text [?a, ?b])"
    and a2: "getAttribute ''srcset'' [(''srcset'', ''img.png 1x,img2.png 2x'')] = Some (srcset_text [?a, ?c])"
    and a3: "getAttribute ''srcset'' [(''srcset'', ''  img.png   480w ,img2.png'')] = Some (srcset_text [?d, ?e])"
    unfolding t1 t2 t3 by (simp_all add: getAttribute_def)
  have g1: "attribute_of ''srcset''
        (rewrite_passes sample_platform ?base (Element ''img'' [(''srcset'', ''img.png 1x, img2.png 2x'')] []))
       = Some ''https://x/dir/img.png 1x, https://x/dir/img2.png 2x''"
    using srcset_entries_rewritten[OF n1 w1 d1 h1 v1 a1, of "''img''" "[]", THEN conjunct1]
    unfolding r1 .
  have g2: "attribute_of ''srcset''
        (rewrite_passes sample_platform ?base (Element ''img'' [(''srcset'', ''img.png 1x,img2.png 2x'')] []))
       = Some ''https://x/dir/img.png 1x, https://x/dir/img2.png 2x''"
    using srcset_entries_rewritten[OF n2 w2 d2 h2 v2 a2, of "''img''" "[]", THEN conjunct1]
    unfolding r2 .
  have g3: "attribute_of ''srcset''
        (rewrite_passes sample_platform ?base (Element ''img'' [(''srcset'', ''  img.png   480w ,img2.png'')] []))
       = Some ''https://x/dir/img.png 480w, https://x/dir/img2.png''"
    using srcset_entries_rewritten[OF n3 w3 d3 h3 v3 a3, of "''img''" "[]", THEN conjunct1]
    unfolding r3 .
  show ?thesis
    using wf t1 t2 t3 u1 u2 g1 g2 g3 by (intro conjI)
qed

text \<open>
  C10: \<^verbatim>\<open>prefetch(url)\<close> neither reads nor writes the pending mapping. Its result and
  its effect are the same whatever the pending mapping holds, and the pending mapping is
  the same afterwards, also when the request of \<^verbatim>\<open>prefetch\<close> settles. If the resolved
  URL is cached it returns the cached text and issues no retrieval; otherwise it issues a
  retrieval of its own, also while a retrieval of \<^verbatim>\<open>_fetchWithCache\<close> for the same URL
  is in flight.
\<close>

theorem prefetch_ignores_pending:
  assumes "url_href P url (baseURI P) = Some u"
  shows "pending (snd (prefetch P url s)) = pending s
       \<and> fst (prefetch P url (s\<lparr>pending := pd\<rparr>)) = fst (prefetch P url s)
       \<and> snd (prefetch P url (s\<lparr>pending := pd\<rparr>)) = (snd (prefetch P url s))\<lparr>pending := pd\<rparr>
       \<and> (\<forall>html. cache s u = Some html \<longrightarrow> prefetch P url s = (Inr (Ready html), s))
       \<and> (cache s u = None \<longrightarrow>
            prefetch P url s =
              (Inr (OnRequest (length (requests s))),
               s\<lparr> requests := requests s @ [\<lparr> r_url = u, r_shared = False, r_state = InFlight \<rparr>] \<rparr>))
       \<and> (\<forall>r resp. r < length (requests s) \<longrightarrow> \<not> r_shared (requests s ! r) \<longrightarrow>
            pending (settle r resp s) = pending s)"
  using assms
  by (auto simp: prefetch_def settle_def Let_def split: option.splits request_state.splits outcome.splits)

theorem prefetch_ignores_pending_witness:
  "url_href sample_platform ''a.html'' (baseURI sample_platform) = Some ''https://x/dir/a.html''
   \<and> pending loading_state ''https://x/dir/a.html'' = Some 0
   \<and> cache loading_state ''https://x/dir/a.html'' = None
   \<and> fst (prefetch sample_platform ''a.html'' loading_state) = Inr (OnRequest 1)
   \<and> pending (snd (prefetch sample_platform ''a.html'' loading_state)) ''https://x/dir/a.html'' = Some 0"
proof -
  have h: "url_href sample_platform ''a.html'' (baseURI sample_platform) = Some ''https://x/dir/a.html''"
    by (simp add: sample_platform_def sample_href_def directory_def startsWith_def)
  show ?thesis
    using h prefetch_ignores_pending[OF h, of loading_state "pending loading_state"] loading_state_eq
    by simp
qed

end
